theory Spec2Isabelle
  imports Complex_Main
begin

section \<open>Auditorium seat booking: the stores and the request handlers\<close>

text \<open>
  The server keeps two MongoDB collections, Seats and Bookings, and a GridFS bucket of
  uploaded screenshots. Each Express handler of \<^verbatim>\<open>routes/seats.js\<close> and
  \<^verbatim>\<open>routes/bookings.js\<close> is a function from the database before the request to
  the reply and the database after it. Requests are handled one at a time.

  Conventions of the model:
  \<^item> an ObjectId is a natural number;
  \<^item> a collection is the list of its documents in the order in which the store returns
    them to an unsorted \<^verbatim>\<open>find\<close>;
  \<^item> strings are ASCII (a \<^typ>\<open>char\<close> is a byte);
  \<^item> a storage call that throws is chosen by a \<open>fault\<close>: the number of the call,
    counted from 0 inside one handler, or \<open>None\<close> when the store works;
  \<^item> \<^verbatim>\<open>save\<close> on a document validates the document against its schema before it
    writes, and throws when a validator fails.
\<close>

subsection \<open>Documents\<close>

type_synonym object_id = nat

datatype seat_type = Primary | Premium

datatype seat_status = Available | Occupied

datatype booking_status = Pending | Approved | Rejected

text \<open>
  \<^verbatim>\<open>SeatSchema\<close>: \<open>seat_id\<close> is \<^verbatim>\<open>_id\<close>, \<open>seat_type\<close> is
  \<^verbatim>\<open>type\<close>, \<open>seat_status\<close> is \<^verbatim>\<open>status\<close>.
\<close>

record seat =
  seat_id :: object_id
  label :: string
  row :: string
  number :: nat
  seat_type :: seat_type
  seat_status :: seat_status
  occupiedByBookingId :: "object_id option"

text \<open>
  \<^verbatim>\<open>BookingSchema\<close>: \<open>booking_id\<close> is \<^verbatim>\<open>_id\<close>. The amount is a
  JavaScript number, taken as the rational number it denotes; \<^verbatim>\<open>NaN\<close> can only
  arise at intake and is a case of its own there.
\<close>

record booking =
  booking_id :: object_id
  email :: string
  phone :: string
  amount :: rat
  seatLabels :: "string list"
  seatIds :: "object_id list"
  screenshotFileId :: object_id
  screenshotFilename :: string
  screenshotMimetype :: string
  screenshotSize :: nat
  status :: booking_status
  adminNotes :: "string option"

text \<open>A file of the GridFS bucket \<^verbatim>\<open>uploads\<close>.\<close>

record upload_doc =
  file_id :: object_id
  filename :: string
  contentType :: string

record db =
  seats :: "seat list"
  bookings :: "booking list"
  uploads :: "upload_doc list"

subsection \<open>Replies\<close>

text \<open>
  \<open>Error c m\<close> is \<^verbatim>\<open>res.status(c).json({ error: m })\<close>; the other constructors
  are the success bodies of the handlers. \<open>Unhandled m\<close> is an error handed to
  Express's default error handler (status 500). \<open>NoReply\<close> is a handler whose promise
  rejects before it has answered: nothing is sent.
\<close>

datatype reply =
    Error nat string
  | Unhandled string
  | NoReply
  | SeatsInitialized nat
  | SeatOccupied string seat
  | SeatReleased string seat
  | BookingSubmitted object_id
  | BookingApproved object_id "string list"
  | BookingRejected object_id

type_synonym fault = "nat option"

definition throws :: "fault \<Rightarrow> nat \<Rightarrow> bool" where
  "throws f k = (f = Some k)"

subsection \<open>Strings\<close>

definition upper_char :: "char \<Rightarrow> char" where
  "upper_char c =
     (case map_of (zip ''abcdefghijklmnopqrstuvwxyz'' ''ABCDEFGHIJKLMNOPQRSTUVWXYZ'') c of
        Some u \<Rightarrow> u
      | None \<Rightarrow> c)"

definition lower_char :: "char \<Rightarrow> char" where
  "lower_char c =
     (case map_of (zip ''ABCDEFGHIJKLMNOPQRSTUVWXYZ'' ''abcdefghijklmnopqrstuvwxyz'') c of
        Some u \<Rightarrow> u
      | None \<Rightarrow> c)"

definition toUpperCase :: "string \<Rightarrow> string" where
  "toUpperCase s = map upper_char s"

definition toLowerCase :: "string \<Rightarrow> string" where
  "toLowerCase s = map lower_char s"

text \<open>The decimal digits of a number, as a template literal prints it.\<close>

fun show_nat :: "nat \<Rightarrow> string" where
  "show_nat n =
     (if n < 10 then [''0123456789'' ! n]
      else show_nat (n div 10) @ [''0123456789'' ! (n mod 10)])"

declare show_nat.simps [simp del]

text \<open>\<^verbatim>\<open>Array.prototype.join\<close>.\<close>

fun join :: "string \<Rightarrow> string list \<Rightarrow> string" where
  "join sep [] = []"
| "join sep [x] = x"
| "join sep (x # y # ys) = x @ sep @ join sep (y # ys)"

definition status_name :: "booking_status \<Rightarrow> string" where
  "status_name st =
     (case st of Pending \<Rightarrow> ''pending'' | Approved \<Rightarrow> ''approved'' | Rejected \<Rightarrow> ''rejected'')"

text \<open>
  The guard \<^verbatim>\<open>if (req.body?.adminNotes)\<close>: an absent note and the empty string are
  falsy.
\<close>

definition truthy :: "string option \<Rightarrow> bool" where
  "truthy n = (case n of None \<Rightarrow> False | Some s \<Rightarrow> s \<noteq> [])"

subsection \<open>Regular expressions of the schema and of the upload filter\<close>

text \<open>
  The regular expressions of the source are terms of \<open>rx\<close>; \<open>matches\<close> is
  \<^verbatim>\<open>RegExp.test\<close> for an expression anchored at both ends, computed with derivatives.
\<close>

datatype rx =
    Nothing
  | Empty
  | OneOf "char list"
  | NoneOf "char list"
  | Seq rx rx
  | Alt rx rx
  | Star rx

fun nullable :: "rx \<Rightarrow> bool" where
  "nullable Nothing = False"
| "nullable Empty = True"
| "nullable (OneOf cs) = False"
| "nullable (NoneOf cs) = False"
| "nullable (Seq r q) = (nullable r \<and> nullable q)"
| "nullable (Alt r q) = (nullable r \<or> nullable q)"
| "nullable (Star r) = True"

fun deriv :: "char \<Rightarrow> rx \<Rightarrow> rx" where
  "deriv c Nothing = Nothing"
| "deriv c Empty = Nothing"
| "deriv c (OneOf cs) = (if c \<in> set cs then Empty else Nothing)"
| "deriv c (NoneOf cs) = (if c \<in> set cs then Nothing else Empty)"
| "deriv c (Seq r q) =
     (if nullable r then Alt (Seq (deriv c r) q) (deriv c q) else Seq (deriv c r) q)"
| "deriv c (Alt r q) = Alt (deriv c r) (deriv c q)"
| "deriv c (Star r) = Seq (deriv c r) (Star r)"

definition matches :: "rx \<Rightarrow> string \<Rightarrow> bool" where
  "matches r s = nullable (fold deriv s r)"

definition Plus :: "rx \<Rightarrow> rx" where
  "Plus r = Seq r (Star r)"

definition Opt :: "rx \<Rightarrow> rx" where
  "Opt r = Alt r Empty"

fun Rep :: "nat \<Rightarrow> rx \<Rightarrow> rx" where
  "Rep 0 r = Empty"
| "Rep (Suc n) r = Seq r (Rep n r)"

definition Lit :: "string \<Rightarrow> rx" where
  "Lit s = foldr (\<lambda>c r. Seq (OneOf [c]) r) s Empty"

text \<open>The class \<^verbatim>\<open>\s\<close> on ASCII: space, tab, line feed, vertical tab, form feed, return.\<close>

definition whitespace :: "char list" where
  "whitespace = [CHR '' '', CHR 0x09, CHR 0x0A, CHR 0x0B, CHR 0x0C, CHR 0x0D]"

definition digit :: rx where
  "digit = OneOf ''0123456789''"

text \<open>\<^verbatim>\<open>/^[^\s@]+@[^\s@]+\.[^\s@]+$/\<close>\<close>

definition email_rx :: rx where
  "email_rx =
     (let word = Plus (NoneOf (whitespace @ ''@''))
      in Seq word (Seq (Lit ''@'') (Seq word (Seq (Lit ''.'') word))))"

text \<open>\<^verbatim>\<open>/^(\+?91)?[6-9]\d{9}$|^\d{10}$/\<close>\<close>

definition phone_rx :: rx where
  "phone_rx =
     Alt (Seq (Opt (Seq (Opt (Lit ''+'')) (Lit ''91''))) (Seq (OneOf ''6789'') (Rep 9 digit)))
         (Rep 10 digit)"

text \<open>\<^verbatim>\<open>/^image\/(png|jpe?g|webp|gif)$/i\<close>, on the lower-cased input.\<close>

definition image_rx :: rx where
  "image_rx =
     Seq (Lit ''image/'')
       (Alt (Lit ''png'')
         (Alt (Seq (Lit ''jp'') (Seq (Opt (Lit ''e'')) (Lit ''g'')))
           (Alt (Lit ''webp'') (Lit ''gif''))))"

text \<open>\<^verbatim>\<open>String.prototype.trim\<close> and \<^verbatim>\<open>split\<close> at a character.\<close>

definition trim :: "string \<Rightarrow> string" where
  "trim s =
     rev (dropWhile (\<lambda>c. c \<in> set whitespace) (rev (dropWhile (\<lambda>c. c \<in> set whitespace) s)))"

fun split_on :: "char \<Rightarrow> string \<Rightarrow> string list" where
  "split_on c [] = [[]]"
| "split_on c (x # xs) =
     (if x = c then [] # split_on c xs
      else (case split_on c xs of
              [] \<Rightarrow> [[x]]
            | y # ys \<Rightarrow> (x # y) # ys))"

subsection \<open>Schema validators\<close>

text \<open>
  \<^verbatim>\<open>save\<close> and \<^verbatim>\<open>create\<close> run the validators of every path of the document.
  For a seat, the validators of \<^verbatim>\<open>SeatSchema\<close> that a document of the model can fail
  are \<^verbatim>\<open>required\<close> on the strings \<^verbatim>\<open>label\<close> and \<^verbatim>\<open>row\<close>, which the empty string
  fails; the number, the type and the status of a \<open>seat\<close> are always present and within
  their enumerations.
\<close>

definition validate_seat :: "seat \<Rightarrow> bool" where
  "validate_seat s = (label s \<noteq> [] \<and> row s \<noteq> [])"

text \<open>
  For a booking, the validators of \<^verbatim>\<open>BookingSchema\<close> that a document of the model can
  fail are \<^verbatim>\<open>required\<close> and \<^verbatim>\<open>match\<close> on email and phone and \<^verbatim>\<open>min: 1\<close> on the
  amount. (\<^verbatim>\<open>required\<close> on an array path accepts the empty array.)
\<close>

definition validate_booking :: "booking \<Rightarrow> bool" where
  "validate_booking b =
     (email b \<noteq> [] \<and> matches email_rx (email b) \<and>
      phone b \<noteq> [] \<and> matches phone_rx (phone b) \<and>
      1 \<le> amount b)"

subsection \<open>Store operations\<close>

definition fresh_id :: "object_id list \<Rightarrow> object_id" where
  "fresh_id ids = Suc (fold max ids 0)"

text \<open>
  \<^verbatim>\<open>findOneAndUpdate(filter, update, { new: true })\<close>: the first document that
  matches is updated and returned; \<open>None\<close> is \<^verbatim>\<open>null\<close>.
\<close>

fun findOneAndUpdate ::
  "('a \<Rightarrow> bool) \<Rightarrow> ('a \<Rightarrow> 'a) \<Rightarrow> 'a list \<Rightarrow> 'a option \<times> 'a list" where
  "findOneAndUpdate P u [] = (None, [])"
| "findOneAndUpdate P u (x # xs) =
     (if P x then (Some (u x), u x # xs)
      else (case findOneAndUpdate P u xs of (r, ys) \<Rightarrow> (r, x # ys)))"

definition findById :: "object_id \<Rightarrow> booking list \<Rightarrow> booking option" where
  "findById i bs = find (\<lambda>b. booking_id b = i) bs"

text \<open>\<^verbatim>\<open>Seat.find({ label: { $in: labels } })\<close>.\<close>

definition Seat_find_in :: "string list \<Rightarrow> seat list \<Rightarrow> seat list" where
  "Seat_find_in labels coll = filter (\<lambda>s. label s \<in> set labels) coll"

text \<open>
  The write that \<^verbatim>\<open>seat.save()\<close> issues after the assignments of the approve loop:
  the two modified paths are set on the document with the same \<^verbatim>\<open>_id\<close>.
\<close>

definition seat_update :: "seat \<Rightarrow> seat list \<Rightarrow> seat list" where
  "seat_update s coll =
     map (\<lambda>t. if seat_id t = seat_id s
              then t\<lparr>seat_status := seat_status s,
                     occupiedByBookingId := occupiedByBookingId s\<rparr>
              else t) coll"

text \<open>
  \<^verbatim>\<open>seat.save({ session })\<close>, as storage call \<open>k\<close>: the document is validated, then
  written. \<open>None\<close> is a save that throws, by a failed validator or by the store.
\<close>

definition seat_save :: "fault \<Rightarrow> nat \<Rightarrow> seat \<Rightarrow> seat list \<Rightarrow> seat list option" where
  "seat_save f k s coll =
     (if \<not> validate_seat s then None
      else if throws f k then None
      else Some (seat_update s coll))"

text \<open>
  The write that \<^verbatim>\<open>booking.save()\<close> issues: the paths the approve and reject
  handlers assign.
\<close>

definition booking_update :: "booking \<Rightarrow> booking list \<Rightarrow> booking list" where
  "booking_update b coll =
     map (\<lambda>t. if booking_id t = booking_id b
              then t\<lparr>status := status b, seatIds := seatIds b, adminNotes := adminNotes b\<rparr>
              else t) coll"

text \<open>\<^verbatim>\<open>booking.save()\<close>, as storage call \<open>k\<close>: validated, then written.\<close>

definition booking_save ::
  "fault \<Rightarrow> nat \<Rightarrow> booking \<Rightarrow> booking list \<Rightarrow> booking list option" where
  "booking_save f k b coll =
     (if \<not> validate_booking b then None
      else if throws f k then None
      else Some (booking_update b coll))"

subsection \<open>Transactions\<close>

text \<open>
  A session holds the durable database and the view of the running transaction. Reads and
  writes made with the session go to the view; a commit makes the view durable, an abort
  drops it.
\<close>

record session =
  durable :: db
  working :: db

definition startTransaction :: "db \<Rightarrow> session" where
  "startTransaction d = \<lparr>durable = d, working = d\<rparr>"

definition abortTransaction :: "session \<Rightarrow> db" where
  "abortTransaction ses = durable ses"

definition commitTransaction :: "session \<Rightarrow> db" where
  "commitTransaction ses = working ses"

subsection \<open>routes/seats.js\<close>

definition rowToType :: "string \<Rightarrow> seat_type" where
  "rowToType r =
     (if toUpperCase r \<in> set [''K'', ''L'', ''M'', ''N'', ''O'', ''P'', ''Q'', ''R'', ''S'', ''T'']
      then Premium else Primary)"

definition defaultRows :: "string list" where
  "defaultRows = map (\<lambda>c. [c]) ''ABCDEFGHIJKLMNOPQRST''"

text \<open>
  One \<^verbatim>\<open>updateOne\<close> of the bulk, with \<^verbatim>\<open>upsert: true\<close>: \<^verbatim>\<open>$set\<close> on the
  seat with the label when there is one, otherwise an insert, which also takes the
  \<^verbatim>\<open>$setOnInsert\<close> fields.
\<close>

definition upsertSeat :: "string \<times> nat \<Rightarrow> seat list \<Rightarrow> seat list" where
  "upsertSeat op coll =
     (case op of (r, n) \<Rightarrow>
        let lbl = r @ show_nat n;
            seatType = rowToType r
        in (case findOneAndUpdate (\<lambda>s. label s = lbl)
                   (\<lambda>s. s\<lparr>row := r, number := n, seat_type := seatType, label := lbl\<rparr>) coll of
              (Some _, coll') \<Rightarrow> coll'
            | (None, _) \<Rightarrow>
                coll @ [\<lparr>seat_id = fresh_id (map seat_id coll), label = lbl, row = r,
                          number = n, seat_type = seatType, seat_status = Available,
                          occupiedByBookingId = None\<rparr>]))"

text \<open>The bulk built by the two nested loops of \<^verbatim>\<open>POST /init\<close>.\<close>

definition init_bulk :: "string list \<Rightarrow> nat \<Rightarrow> (string \<times> nat) list" where
  "init_bulk rows perRow = concat (map (\<lambda>r. map (\<lambda>n. (r, n)) [1 ..< Suc perRow]) rows)"

text \<open>
  The two constants at the head of \<^verbatim>\<open>POST /api/seats/init\<close>. The body's
  \<^verbatim>\<open>rows\<close> is \<open>Some\<close> when it is an array, its \<^verbatim>\<open>perRow\<close> is \<open>Some\<close> when
  it is an integer.
\<close>

definition request_rows :: "string list option \<Rightarrow> string list" where
  "request_rows body_rows =
     (case body_rows of
        Some rs \<Rightarrow> if rs \<noteq> [] then map toUpperCase rs else defaultRows
      | None \<Rightarrow> defaultRows)"

definition request_perRow :: "int option \<Rightarrow> nat" where
  "request_perRow body_perRow =
     (case body_perRow of
        Some p \<Rightarrow> if p > 0 then nat p else 20
      | None \<Rightarrow> 20)"

text \<open>
  \<^verbatim>\<open>POST /api/seats/init\<close>. The writes of the bulk are applied in the order of the
  bulk; the total is \<^verbatim>\<open>Seat.countDocuments()\<close>.
\<close>

definition init :: "string list option \<Rightarrow> int option \<Rightarrow> db \<Rightarrow> reply \<times> db" where
  "init body_rows body_perRow d =
     (let rows = request_rows body_rows;
          perRow = request_perRow body_perRow;
          d' = d\<lparr>seats := fold upsertSeat (init_bulk rows perRow) (seats d)\<rparr>
      in (SeatsInitialized (length (seats d')), d'))"

text \<open>\<^verbatim>\<open>PATCH /api/seats/:label/occupy\<close>.\<close>

definition occupy :: "string \<Rightarrow> db \<Rightarrow> reply \<times> db" where
  "occupy label_param d =
     (let lbl = toUpperCase label_param
      in case findOneAndUpdate (\<lambda>s. label s = lbl) (\<lambda>s. s\<lparr>seat_status := Occupied\<rparr>)
                (seats d) of
           (None, _) \<Rightarrow> (Error 404 ''Seat not found'', d)
         | (Some s, coll') \<Rightarrow> (SeatOccupied (lbl @ '' marked as occupied'') s, d\<lparr>seats := coll'\<rparr>))"

text \<open>\<^verbatim>\<open>PATCH /api/seats/:label/release\<close>.\<close>

definition release :: "string \<Rightarrow> db \<Rightarrow> reply \<times> db" where
  "release label_param d =
     (let lbl = toUpperCase label_param
      in case findOneAndUpdate (\<lambda>s. label s = lbl)
                (\<lambda>s. s\<lparr>seat_status := Available, occupiedByBookingId := None\<rparr>) (seats d) of
           (None, _) \<Rightarrow> (Error 404 ''Seat not found'', d)
         | (Some s, coll') \<Rightarrow>
             (SeatReleased (lbl @ '' released to available'') s, d\<lparr>seats := coll'\<rparr>))"

subsection \<open>routes/bookings.js: approve and reject\<close>

text \<open>
  The loop of the approve handler over the seats found. \<open>k\<close> numbers the storage call
  of the next \<^verbatim>\<open>seat.save\<close>; \<open>None\<close> is a save that throws.
\<close>

fun occupy_all ::
  "fault \<Rightarrow> nat \<Rightarrow> object_id \<Rightarrow> seat list \<Rightarrow> seat list \<Rightarrow> seat list option" where
  "occupy_all f k b [] coll = Some coll"
| "occupy_all f k b (s # ss) coll =
     (case seat_save f k (s\<lparr>seat_status := Occupied, occupiedByBookingId := Some b\<rparr>) coll of
        None \<Rightarrow> None
      | Some coll' \<Rightarrow> occupy_all f (Suc k) b ss coll')"

text \<open>
  What leaves the \<^verbatim>\<open>try\<close> block of the approve handler as an exception: thrown by a
  read or a save, or thrown by \<^verbatim>\<open>commitTransaction\<close>.
\<close>

datatype thrown = Thrown | ThrownByCommit

text \<open>
  The \<^verbatim>\<open>try\<close> block of \<^verbatim>\<open>POST /api/bookings/:id/approve\<close>. \<open>Inl\<close> is an
  exception, caught by \<open>approve\<close>. The storage calls are numbered: 0 is
  \<^verbatim>\<open>Booking.findById\<close>, 1 is \<^verbatim>\<open>Seat.find\<close>, then one \<^verbatim>\<open>seat.save\<close> for each seat
  found, then \<^verbatim>\<open>booking.save\<close>, then \<^verbatim>\<open>commitTransaction\<close>.
\<close>

definition approve_try ::
  "fault \<Rightarrow> object_id \<Rightarrow> string option \<Rightarrow> session \<Rightarrow> thrown + reply \<times> db" where
  "approve_try f bookingId notes ses =
     (if throws f 0 then Inl Thrown
      else case findById bookingId (bookings (working ses)) of
        None \<Rightarrow> Inr (Error 404 ''Booking not found'', abortTransaction ses)
      | Some b \<Rightarrow>
          if status b \<noteq> Pending
          then Inr (Error 400 (''Booking status is '' @ status_name (status b) @ '', cannot approve''),
                    abortTransaction ses)
          else if throws f 1 then Inl Thrown
          else
            let found = Seat_find_in (seatLabels b) (seats (working ses));
                missing = filter (\<lambda>l. l \<notin> set (map label found)) (seatLabels b)
            in if missing \<noteq> []
               then Inr (Error 400 (''Seats not found: '' @ join '', '' missing),
                         abortTransaction ses)
               else
                 let taken = map label (filter (\<lambda>s. seat_status s \<noteq> Available) found)
                 in if taken \<noteq> []
                    then Inr (Error 409 (''Seats already occupied: '' @ join '', '' taken),
                              abortTransaction ses)
                    else
                      (case occupy_all f 2 (booking_id b) found (seats (working ses)) of
                         None \<Rightarrow> Inl Thrown
                       | Some coll' \<Rightarrow>
                           let b' = b\<lparr>status := Approved,
                                      seatIds := map seat_id found,
                                      adminNotes := (if truthy notes then notes
                                                     else adminNotes b)\<rparr>
                           in (case booking_save f (2 + length found) b'
                                      (bookings (working ses)) of
                                 None \<Rightarrow> Inl Thrown
                               | Some bs' \<Rightarrow>
                                   let ses' = ses\<lparr>working := (working ses)
                                                \<lparr>seats := coll', bookings := bs'\<rparr>\<rparr>
                                   in if throws f (3 + length found) then Inl ThrownByCommit
                                      else Inr (BookingApproved (booking_id b) (seatLabels b),
                                                commitTransaction ses'))))"

text \<open>
  The handler: the transaction is started, and the \<^verbatim>\<open>catch\<close> aborts it and replies
  500. After a \<^verbatim>\<open>commitTransaction\<close> that threw, the \<^verbatim>\<open>abortTransaction\<close> of the
  \<^verbatim>\<open>catch\<close> throws in its turn, so the handler sends nothing; the commit is taken not to
  have applied.
\<close>

definition approve :: "fault \<Rightarrow> object_id \<Rightarrow> string option \<Rightarrow> db \<Rightarrow> reply \<times> db" where
  "approve f bookingId notes d =
     (let ses = startTransaction d
      in case approve_try f bookingId notes ses of
           Inr r \<Rightarrow> r
         | Inl Thrown \<Rightarrow> (Error 500 ''Approve failed'', abortTransaction ses)
         | Inl ThrownByCommit \<Rightarrow> (NoReply, durable ses))"

text \<open>
  \<^verbatim>\<open>POST /api/bookings/:id/reject\<close>: storage call 0 is \<^verbatim>\<open>Booking.findById\<close>,
  call 1 is \<^verbatim>\<open>booking.save\<close>; there is no transaction.
\<close>

definition reject :: "fault \<Rightarrow> object_id \<Rightarrow> string option \<Rightarrow> db \<Rightarrow> reply \<times> db" where
  "reject f bookingId notes d =
     (if throws f 0 then (Error 500 ''Reject failed'', d)
      else case findById bookingId (bookings d) of
        None \<Rightarrow> (Error 404 ''Booking not found'', d)
      | Some b \<Rightarrow>
          if status b \<noteq> Pending
          then (Error 400 (''Booking status is '' @ status_name (status b) @ '', cannot reject''), d)
          else
            let b' = b\<lparr>status := Rejected,
                       adminNotes := (if truthy notes then notes else adminNotes b)\<rparr>
            in (case booking_save f 1 b' (bookings d) of
                  None \<Rightarrow> (Error 500 ''Reject failed'', d)
                | Some bs' \<Rightarrow> (BookingRejected (booking_id b), d\<lparr>bookings := bs'\<rparr>)))"

subsection \<open>middleware/upload.js\<close>

text \<open>
  The file part of the form as multer receives it; \<open>file_size\<close> is \<^verbatim>\<open>size\<close>.
\<close>

record upload_file =
  originalname :: string
  mimetype :: string
  file_size :: nat

definition fileFilter :: "upload_file \<Rightarrow> bool" where
  "fileFilter file = matches image_rx (toLowerCase (mimetype file))"

definition fileSize_limit :: nat where
  "fileSize_limit = 5 * 1024 * 1024"

text \<open>
  \<^verbatim>\<open>upload.single("screenshot")\<close>: \<open>Inl\<close> is the error multer passes on,
  \<open>Inr\<close> is \<^verbatim>\<open>req.file\<close>.
\<close>

definition upload_single :: "upload_file option \<Rightarrow> string + upload_file option" where
  "upload_single part =
     (case part of
        None \<Rightarrow> Inr None
      | Some file \<Rightarrow>
          if \<not> fileFilter file
          then Inl ''Only image files allowed (png, jpg, jpeg, webp, gif).''
          else if file_size file > fileSize_limit then Inl ''File too large''
          else Inr (Some file))"

subsection \<open>routes/bookings.js: intake\<close>

text \<open>
  The multipart form. \<open>req_amount\<close> is the value of \<^verbatim>\<open>Number(req.body.amount)\<close>,
  \<open>None\<close> for \<^verbatim>\<open>NaN\<close>; a text field that is absent is \<open>None\<close>.
\<close>

record intake_request =
  req_email :: "string option"
  req_phone :: "string option"
  req_amount :: "rat option"
  req_seats :: "string option"
  req_file :: "upload_file option"

definition parse_seats :: "string \<Rightarrow> string list" where
  "parse_seats seatsRaw =
     filter (\<lambda>s. s \<noteq> []) (map (\<lambda>s. toUpperCase (trim s)) (split_on CHR '','' seatsRaw))"

text \<open>
  \<^verbatim>\<open>POST /api/bookings\<close>. Storage call 0 is the GridFS upload, call 1 is
  \<^verbatim>\<open>Booking.create\<close>, which first applies the setters of the schema (trim, lowercase)
  and validates.
\<close>

definition submit :: "fault \<Rightarrow> intake_request \<Rightarrow> db \<Rightarrow> reply \<times> db" where
  "submit f rq d =
     (case upload_single (req_file rq) of
        Inl msg \<Rightarrow> (Unhandled msg, d)
      | Inr file_opt \<Rightarrow>
          let seatsRaw = (case req_seats rq of None \<Rightarrow> [] | Some s \<Rightarrow> s)
          in (case (req_email rq, req_phone rq, req_amount rq, file_opt) of
               (Some em, Some ph, Some am, Some file) \<Rightarrow>
                 if em = [] \<or> ph = [] \<or> am = 0 \<or> seatsRaw = []
                 then (Error 400 ''email, phone, amount, seats, and screenshot are required'', d)
                 else if throws f 0 then (Error 500 ''Failed to upload screenshot'', d)
                 else
                   let fileId = fresh_id (map file_id (uploads d));
                       d1 = d\<lparr>uploads := uploads d @
                                 [\<lparr>file_id = fileId, filename = originalname file,
                                   contentType = mimetype file\<rparr>]\<rparr>;
                       doc = \<lparr>booking_id = fresh_id (map booking_id (bookings d)),
                              email = toLowerCase (trim em),
                              phone = trim ph,
                              amount = am,
                              seatLabels = parse_seats seatsRaw,
                              seatIds = [],
                              screenshotFileId = fileId,
                              screenshotFilename = originalname file,
                              screenshotMimetype = mimetype file,
                              screenshotSize = file_size file,
                              status = Pending,
                              adminNotes = None\<rparr>
                   in if throws f 1 \<or> \<not> validate_booking doc
                      then (Error 500 ''Failed to save booking after upload'', d1)
                      else (BookingSubmitted (booking_id doc),
                            d1\<lparr>bookings := bookings d1 @ [doc]\<rparr>)
             | _ \<Rightarrow> (Error 400 ''email, phone, amount, seats, and screenshot are required'', d)))"

subsection \<open>The server as a state machine\<close>

text \<open>
  The requests to the six handlers that write to the store. The handlers of
  \<^verbatim>\<open>GET /api/seats\<close>, \<^verbatim>\<open>GET /api/seats/:label\<close> and
  \<^verbatim>\<open>GET /api/bookings/screenshot/:fileId\<close> only read.
\<close>

datatype request =
    Init "string list option" "int option"
  | OccupySeat string
  | ReleaseSeat string
  | Submit fault intake_request
  | ApproveBooking fault object_id "string option"
  | RejectBooking fault object_id "string option"

fun handle :: "request \<Rightarrow> db \<Rightarrow> reply \<times> db" where
  "handle (Init rows perRow) d = init rows perRow d"
| "handle (OccupySeat l) d = occupy l d"
| "handle (ReleaseSeat l) d = release l d"
| "handle (Submit f rq) d = submit f rq d"
| "handle (ApproveBooking f i n) d = approve f i n d"
| "handle (RejectBooking f i n) d = reject f i n d"

fun run :: "request list \<Rightarrow> db \<Rightarrow> db" where
  "run [] d = d"
| "run (r # rs) d = run rs (snd (handle r d))"

subsection \<open>Predicates on states and replies\<close>

definition is_success :: "reply \<Rightarrow> bool" where
  "is_success r =
     (case r of Error c m \<Rightarrow> False | Unhandled m \<Rightarrow> False | NoReply \<Rightarrow> False | _ \<Rightarrow> True)"

text \<open>What the store guarantees: \<^verbatim>\<open>_id\<close> is unique, and so is a seat's label.\<close>

definition wf_db :: "db \<Rightarrow> bool" where
  "wf_db d =
     (distinct (map seat_id (seats d)) \<and> distinct (map label (seats d)) \<and>
      distinct (map booking_id (bookings d)))"

definition seat_inv :: "seat \<Rightarrow> bool" where
  "seat_inv s = ((occupiedByBookingId s \<noteq> None) = (seat_status s = Occupied))"

definition seat_linked_occupied :: "seat \<Rightarrow> bool" where
  "seat_linked_occupied s = (occupiedByBookingId s = None \<or> seat_status s = Occupied)"

definition occupied_seats :: "db \<Rightarrow> seat set" where
  "occupied_seats d = set (filter (\<lambda>s. seat_status s = Occupied) (seats d))"

definition seat_by_label :: "string \<Rightarrow> db \<Rightarrow> seat option" where
  "seat_by_label l d = find (\<lambda>s. label s = l) (seats d)"

text \<open>
  The label that an entry of the bulk addresses, and a seat that carries the structural
  fields the entry writes.
\<close>

definition entry_label :: "string \<times> nat \<Rightarrow> string" where
  "entry_label op = fst op @ show_nat (snd op)"

definition matches_entry :: "seat \<Rightarrow> string \<times> nat \<Rightarrow> bool" where
  "matches_entry s op =
     (case op of (r, n) \<Rightarrow>
        label s = r @ show_nat n \<and> row s = r \<and> number s = n \<and> seat_type s = rowToType r)"

text \<open>The fields of a seat that the inventory initialisation must not touch.\<close>

definition core :: "seat \<Rightarrow> object_id \<times> string \<times> seat_status \<times> object_id option" where
  "core s = (seat_id s, label s, seat_status s, occupiedByBookingId s)"

text \<open>
  The invariant of the bulk write: labels are unique, and a seat whose label is addressed
  by an entry written so far carries the fields of such an entry.
\<close>

definition good :: "(string \<times> nat) set \<Rightarrow> seat list \<Rightarrow> bool" where
  "good D coll =
     (distinct (map label coll) \<and>
      (\<forall>s \<in> set coll. label s \<in> entry_label ` D \<longrightarrow> (\<exists>op \<in> D. matches_entry s op)))"

text \<open>
  The intake conditions in the words of the contract: both contact fields are present and
  match their patterns once normalised by the schema, the amount is a number and at
  least 1, the seats field is present and not empty, and the attachment is present, of an
  image type and within the size limit.
\<close>

definition well_formed_intake :: "intake_request \<Rightarrow> bool" where
  "well_formed_intake rq =
     (case (req_email rq, req_phone rq, req_amount rq, req_seats rq, req_file rq) of
        (Some em, Some ph, Some am, Some sr, Some file) \<Rightarrow>
          matches email_rx (toLowerCase (trim em)) \<and> matches phone_rx (trim ph) \<and>
          1 \<le> am \<and> sr \<noteq> [] \<and> fileFilter file \<and> file_size file \<le> fileSize_limit
      | _ \<Rightarrow> False)"

subsection \<open>A small auditorium\<close>

definition mk_seat :: "object_id \<Rightarrow> string \<Rightarrow> nat \<Rightarrow> seat_status \<Rightarrow> object_id option \<Rightarrow> seat" where
  "mk_seat i r n st occ =
     \<lparr>seat_id = i, label = r @ show_nat n, row = r, number = n, seat_type = rowToType r,
      seat_status = st, occupiedByBookingId = occ\<rparr>"

definition mk_booking :: "object_id \<Rightarrow> string list \<Rightarrow> booking_status \<Rightarrow> booking" where
  "mk_booking i ls st =
     \<lparr>booking_id = i, email = ''a@b.co'', phone = ''9876543210'', amount = 500,
      seatLabels = ls, seatIds = [], screenshotFileId = 1, screenshotFilename = ''pay.png'',
      screenshotMimetype = ''image/png'', screenshotSize = 1000, status = st,
      adminNotes = None\<rparr>"

definition walk_in :: intake_request where
  "walk_in =
     \<lparr>req_email = Some ''Ann@Mail.in'', req_phone = Some ''9876543210'',
      req_amount = Some 500, req_seats = Some ''b7, b8'',
      req_file = Some \<lparr>originalname = ''pay.png'', mimetype = ''image/png'', file_size = 1000\<rparr>\<rparr>"

definition hall :: db where
  "hall =
     \<lparr>seats = [mk_seat 1 ''A'' 1 Available None, mk_seat 2 ''A'' 2 Available None,
               mk_seat 3 ''A'' 3 Occupied (Some 10)],
      bookings = [mk_booking 7 [''A2'', ''A1''] Pending,
                  mk_booking 8 [''A1'', ''Z9''] Pending,
                  mk_booking 9 [''A1'', ''A3''] Pending,
                  (mk_booking 10 [''A3''] Approved)\<lparr>seatIds := [3]\<rparr>,
                  mk_booking 11 [''A1'', ''A1''] Pending],
      uploads = [\<lparr>file_id = 1, filename = ''pay.png'', contentType = ''image/png''\<rparr>]\<rparr>"

text \<open>
  The hall with stale structural fields on seat A2, as an earlier labelling could have
  left them.
\<close>

definition old_hall :: db where
  "old_hall =
     hall\<lparr>seats := [mk_seat 1 ''A'' 1 Available None,
                     \<lparr>seat_id = 2, label = ''A2'', row = ''a'', number = 7, seat_type = Premium,
                      seat_status = Available, occupiedByBookingId = None\<rparr>,
                     mk_seat 3 ''A'' 3 Occupied (Some 10)]\<rparr>"

text \<open>
  An annex whose only seat comes from the inventory initialisation with the single row
  \<^verbatim>\<open>""\<close> and one seat per row, and a pending booking for that seat.
\<close>

definition annex :: db where
  "annex =
     snd (init (Some [[]]) (Some 1)
            \<lparr>seats = [], bookings = [mk_booking 7 [''1''] Pending],
             uploads = [\<lparr>file_id = 1, filename = ''pay.png'', contentType = ''image/png''\<rparr>]\<rparr>)"

section \<open>Properties\<close>

subsection \<open>Approve is all or nothing\<close>

lemma abort_start: "abortTransaction (startTransaction d) = d"
  by (simp add: abortTransaction_def startTransaction_def)

lemma approve_try_result:
  "approve_try f i n ses = Inr (r, d') \<Longrightarrow> d' = abortTransaction ses \<or> is_success r"
  unfolding approve_try_def Let_def
  by (simp split: option.splits if_splits) (auto simp: is_success_def)

lemma approve_failure_keeps_db:
  "\<not> is_success (fst (approve f i n d)) \<Longrightarrow> snd (approve f i n d) = d"
proof (cases "approve_try f i n (startTransaction d)")
  case (Inl e)
  then show ?thesis
    by (cases e) (simp_all add: approve_def Let_def abort_start startTransaction_def
        abortTransaction_def)
next
  case (Inr p)
  obtain r d' where p: "p = (r, d')" by (cases p)
  assume "\<not> is_success (fst (approve f i n d))"
  with Inr p have "\<not> is_success r"
    by (simp add: approve_def Let_def)
  with approve_try_result [of f i n "startTransaction d" r d'] Inr p
  have "d' = d" by (simp add: abort_start)
  with Inr p show ?thesis
    by (simp add: approve_def Let_def)
qed

text \<open>
  C2. Whenever the approve handler does not reply with success, whatever the booking id, the
  starting database and the storage call that throws (if any), the database after the call
  is the database before it: the occupied seats are the same and the status of the target
  booking is the same.
\<close>

theorem approve_atomic:
  "\<not> is_success (fst (approve f i n d)) \<Longrightarrow>
     snd (approve f i n d) = d \<and>
     occupied_seats (snd (approve f i n d)) = occupied_seats d \<and>
     map_option status (findById i (bookings (snd (approve f i n d)))) =
       map_option status (findById i (bookings d))"
  by (simp add: approve_failure_keeps_db)

text \<open>
  In the hall, booking 7 asks for two free seats; the save of the second seat (storage
  call 3) throws, after the first seat was written inside the transaction.
\<close>

theorem approve_atomic_witness:
  "\<not> is_success (fst (approve (Some 3) 7 None hall)) \<and>
   snd (approve (Some 3) 7 None hall) = hall"
proof -
  have h: "\<not> is_success (fst (approve (Some 3) 7 None hall))"
    by code_simp
  from approve_atomic [OF h] h show ?thesis by simp
qed

subsection \<open>The approve handler when the store works\<close>

lemma throws_None [simp]: "throws None k = False"
  by (simp add: throws_def)

lemma validate_seat_marked [simp]:
  "validate_seat (s\<lparr>seat_status := a, occupiedByBookingId := b\<rparr>) = validate_seat s"
  by (simp add: validate_seat_def)

lemma validate_booking_status [simp]:
  "validate_booking (b\<lparr>status := a\<rparr>) = validate_booking b"
  by (simp add: validate_booking_def)

lemma validate_booking_seatIds [simp]:
  "validate_booking (b\<lparr>seatIds := a\<rparr>) = validate_booking b"
  by (simp add: validate_booking_def)

lemma validate_booking_adminNotes [simp]:
  "validate_booking (b\<lparr>adminNotes := a\<rparr>) = validate_booking b"
  by (simp add: validate_booking_def)

lemma seat_update_occupied:
  "seat_update (s\<lparr>seat_status := Occupied, occupiedByBookingId := Some b\<rparr>) coll =
   map (\<lambda>t. if seat_id t = seat_id s
            then t\<lparr>seat_status := Occupied, occupiedByBookingId := Some b\<rparr> else t) coll"
  by (simp add: seat_update_def)

lemma occupy_all_None:
  "occupy_all None k b ss coll =
   (if list_all validate_seat ss
    then Some (map (\<lambda>t. if seat_id t \<in> seat_id ` set ss
                        then t\<lparr>seat_status := Occupied, occupiedByBookingId := Some b\<rparr>
                        else t) coll)
    else None)"
proof (induction ss arbitrary: k coll)
  case Nil
  then show ?case by simp
next
  case (Cons s ss)
  show ?case
    by (simp add: Cons.IH seat_save_def seat_update_occupied o_def)
qed

lemma missing_labels_eq:
  "filter (\<lambda>l. l \<notin> label ` set (Seat_find_in ls coll)) ls =
   filter (\<lambda>l. l \<notin> label ` set coll) ls"
  by (rule filter_cong) (auto simp: Seat_find_in_def)

lemma taken_eq:
  "filter (\<lambda>s. seat_status s \<noteq> Available) (Seat_find_in ls coll) =
   filter (\<lambda>s. label s \<in> set ls \<and> seat_status s \<noteq> Available) coll"
  by (simp add: Seat_find_in_def conj_commute)

lemma truthy_note:
  "(if truthy n then n else a) =
   (case n of None \<Rightarrow> a | Some s \<Rightarrow> if s = [] then a else Some s)"
  by (simp add: truthy_def split: option.splits)

lemma approve_None:
  "approve None i n d =
     (case findById i (bookings d) of
        None \<Rightarrow> (Error 404 ''Booking not found'', d)
      | Some b \<Rightarrow>
          if status b \<noteq> Pending
          then (Error 400 (''Booking status is '' @ status_name (status b) @ '', cannot approve''), d)
          else if filter (\<lambda>l. l \<notin> label ` set (seats d)) (seatLabels b) \<noteq> []
          then (Error 400 (''Seats not found: '' @
                 join '', '' (filter (\<lambda>l. l \<notin> label ` set (seats d)) (seatLabels b))), d)
          else if filter (\<lambda>s. label s \<in> set (seatLabels b) \<and> seat_status s \<noteq> Available)
                    (seats d) \<noteq> []
          then (Error 409 (''Seats already occupied: '' @
                 join '', '' (map label
                   (filter (\<lambda>s. label s \<in> set (seatLabels b) \<and> seat_status s \<noteq> Available)
                      (seats d)))), d)
          else if list_all validate_seat (Seat_find_in (seatLabels b) (seats d)) \<and>
                  validate_booking b
          then (BookingApproved (booking_id b) (seatLabels b),
                d\<lparr>seats :=
                    map (\<lambda>t. if seat_id t \<in> seat_id ` set (Seat_find_in (seatLabels b) (seats d))
                             then t\<lparr>seat_status := Occupied,
                                    occupiedByBookingId := Some (booking_id b)\<rparr>
                             else t) (seats d),
                  bookings :=
                    booking_update
                      (b\<lparr>status := Approved,
                         seatIds := map seat_id (Seat_find_in (seatLabels b) (seats d)),
                         adminNotes := (case n of None \<Rightarrow> adminNotes b
                                        | Some s \<Rightarrow> if s = [] then adminNotes b else Some s)\<rparr>)
                      (bookings d)\<rparr>)
          else (Error 500 ''Approve failed'', d))"
  unfolding approve_def approve_try_def Let_def truthy_note
  by (simp add: missing_labels_eq taken_eq occupy_all_None booking_save_def
      abortTransaction_def startTransaction_def commitTransaction_def split: option.splits)

text \<open>
  C4. With a store that works, the reply of the approve handler is decided by four checks
  in this order: no booking with the id gives 404 "Booking not found"; a booking that is
  not pending gives 400 with its current status in the message; a requested label that no
  seat has gives 400 listing exactly the requested labels without a seat; a requested
  seat that is not available gives 409 listing exactly the labels of those seats. When
  the four checks pass, the booking is approved if the seats found and the booking pass
  the validators of their schemas, and the reply is 500 otherwise. The four error replies
  of the checks differ from one another whatever the status and the labels they report.
\<close>

theorem approve_preconditions_in_order:
  "fst (approve None i n d) =
     (case findById i (bookings d) of
        None \<Rightarrow> Error 404 ''Booking not found''
      | Some b \<Rightarrow>
          if status b \<noteq> Pending
          then Error 400 (''Booking status is '' @ status_name (status b) @ '', cannot approve'')
          else if filter (\<lambda>l. l \<notin> label ` set (seats d)) (seatLabels b) \<noteq> []
          then Error 400 (''Seats not found: '' @
                 join '', '' (filter (\<lambda>l. l \<notin> label ` set (seats d)) (seatLabels b)))
          else if filter (\<lambda>s. label s \<in> set (seatLabels b) \<and> seat_status s \<noteq> Available)
                    (seats d) \<noteq> []
          then Error 409 (''Seats already occupied: '' @
                 join '', '' (map label
                   (filter (\<lambda>s. label s \<in> set (seatLabels b) \<and> seat_status s \<noteq> Available)
                      (seats d))))
          else if list_all (\<lambda>s. label s \<noteq> [] \<and> row s \<noteq> [])
                    (filter (\<lambda>s. label s \<in> set (seatLabels b)) (seats d)) \<and>
                  email b \<noteq> [] \<and> matches email_rx (email b) \<and>
                  phone b \<noteq> [] \<and> matches phone_rx (phone b) \<and> 1 \<le> amount b
          then BookingApproved (booking_id b) (seatLabels b)
          else Error 500 ''Approve failed'') \<and>
   distinct [Error 404 ''Booking not found'',
             Error 400 (''Booking status is '' @ x),
             Error 400 (''Seats not found: '' @ y),
             Error 409 (''Seats already occupied: '' @ z)]"
proof -
  have v: "list_all validate_seat (Seat_find_in ls (seats d)) =
      list_all (\<lambda>s. label s \<noteq> [] \<and> row s \<noteq> []) (filter (\<lambda>s. label s \<in> set ls) (seats d))" for ls
    by (simp add: Seat_find_in_def validate_seat_def [abs_def])
  show ?thesis
    by (simp add: approve_None v validate_booking_def split: option.splits)
qed

text \<open>
  In the hall: no booking 99; booking 10 is approved; booking 8 asks for A1 and Z9, and
  there is no seat Z9; booking 9 asks for A1 and A3, and A3 is occupied.
\<close>

theorem approve_preconditions_in_order_witness:
  "fst (approve None 99 None hall) = Error 404 ''Booking not found'' \<and>
   fst (approve None 10 None hall) = Error 400 ''Booking status is approved, cannot approve'' \<and>
   fst (approve None 8 None hall) = Error 400 ''Seats not found: Z9'' \<and>
   fst (approve None 9 None hall) = Error 409 ''Seats already occupied: A3''"
proof -
  note t = approve_preconditions_in_order [THEN conjunct1]
  have "fst (approve None 99 None hall) = Error 404 ''Booking not found''"
    by (subst t) code_simp
  moreover have "fst (approve None 10 None hall) =
      Error 400 ''Booking status is approved, cannot approve''"
    by (subst t) code_simp
  moreover have "fst (approve None 8 None hall) = Error 400 ''Seats not found: Z9''"
    by (subst t) code_simp
  moreover have "fst (approve None 9 None hall) = Error 409 ''Seats already occupied: A3''"
    by (subst t) code_simp
  ultimately show ?thesis by simp
qed

subsection \<open>What a successful approve writes\<close>

lemma find_map_keep:
  "(\<And>x. P (g x) = P x) \<Longrightarrow> find P (map g xs) = map_option g (find P xs)"
  by (induction xs) auto

lemma find_Some_P: "find P xs = Some x \<Longrightarrow> P x \<and> x \<in> set xs"
  by (induction xs) (auto split: if_splits)

lemma findById_id: "findById i bs = Some b \<Longrightarrow> booking_id b = i"
  by (auto simp: findById_def dest: find_Some_P)

lemma findById_booking_update:
  "findById i bs = Some b \<Longrightarrow> booking_id b' = i \<Longrightarrow>
   findById i (booking_update b' bs) =
     Some (b\<lparr>status := status b', seatIds := seatIds b', adminNotes := adminNotes b'\<rparr>)"
  unfolding findById_def booking_update_def
  by (subst find_map_keep) (auto dest: find_Some_P)

text \<open>
  C3, as the spec states it, fails in four ways.
  \<^item> The order of the references: booking 7 of the hall is pending and asks for A2 and
    then A1, the seats with ids 2 and 1, both free. It is approved, and its references
    are 1 and then 2, the order in which the store returns the seats.
  \<^item> One reference for each requested label: booking 11 asks for A1 twice and gets one
    reference.
  \<^item> The note: booking 7 approved with the empty string as note keeps no note.
  \<^item> Success itself: in the annex, booking 7 is pending and asks for seat "1", which
    exists and is available; its row is the empty string, its save is refused by the
    schema, and the reply is 500 with the seat still available.
\<close>

theorem approve_postcondition_counterexample:
  "map_option status (findById 7 (bookings hall)) = Some Pending \<and>
   map_option seatLabels (findById 7 (bookings hall)) = Some [''A2'', ''A1''] \<and>
   map_option seat_id (seat_by_label ''A2'' hall) = Some 2 \<and>
   map_option seat_id (seat_by_label ''A1'' hall) = Some 1 \<and>
   fst (approve None 7 None hall) = BookingApproved 7 [''A2'', ''A1''] \<and>
   map_option seatIds (findById 7 (bookings (snd (approve None 7 None hall)))) = Some [1, 2] \<and>
   map_option status (findById 11 (bookings hall)) = Some Pending \<and>
   map_option seatLabels (findById 11 (bookings hall)) = Some [''A1'', ''A1''] \<and>
   fst (approve None 11 None hall) = BookingApproved 11 [''A1'', ''A1''] \<and>
   map_option seatIds (findById 11 (bookings (snd (approve None 11 None hall)))) = Some [1] \<and>
   fst (approve None 7 (Some []) hall) = BookingApproved 7 [''A2'', ''A1''] \<and>
   map_option adminNotes (findById 7 (bookings (snd (approve None 7 (Some []) hall)))) =
     Some None \<and>
   map_option status (findById 7 (bookings annex)) = Some Pending \<and>
   map_option seatLabels (findById 7 (bookings annex)) = Some [''1''] \<and>
   map_option seat_status (seat_by_label ''1'' annex) = Some Available \<and>
   map_option row (seat_by_label ''1'' annex) = Some [] \<and>
   fst (approve None 7 None annex) = Error 500 ''Approve failed'' \<and>
   map_option seat_status (seat_by_label ''1'' (snd (approve None 7 None annex))) =
     Some Available"
  by code_simp

text \<open>
  C3, amended. Take a store that works, a pending booking that passes the validators of
  the booking schema, and requested labels that all belong to seats, all of them available
  and with a label and a row that are not empty. Then approve replies with success;
  afterwards every seat with a requested label is occupied and linked to the booking, no
  seat was added, removed or relabelled, the booking is approved, its seat references are
  the ids of the seats with a requested label, each seat once, in the order in which the
  store returns them, and its admin note is the note of the request when that is a string
  that is not empty, and the note it had otherwise.
\<close>

theorem approve_success:
  assumes "findById i (bookings d) = Some b"
    and "status b = Pending"
    and "email b \<noteq> [] \<and> matches email_rx (email b) \<and>
         phone b \<noteq> [] \<and> matches phone_rx (phone b) \<and> 1 \<le> amount b"
    and "set (seatLabels b) \<subseteq> label ` set (seats d)"
    and "\<forall>s \<in> set (seats d). label s \<in> set (seatLabels b) \<longrightarrow>
           seat_status s = Available \<and> label s \<noteq> [] \<and> row s \<noteq> []"
  shows "fst (approve None i n d) = BookingApproved i (seatLabels b) \<and>
         map label (seats (snd (approve None i n d))) = map label (seats d) \<and>
         map seat_id (seats (snd (approve None i n d))) = map seat_id (seats d) \<and>
         (\<forall>s \<in> set (seats (snd (approve None i n d))).
             label s \<in> set (seatLabels b) \<longrightarrow>
             seat_status s = Occupied \<and> occupiedByBookingId s = Some i) \<and>
         findById i (bookings (snd (approve None i n d))) =
           Some (b\<lparr>status := Approved,
                   seatIds := map seat_id (filter (\<lambda>s. label s \<in> set (seatLabels b)) (seats d)),
                   adminNotes := (case n of None \<Rightarrow> adminNotes b
                                  | Some s \<Rightarrow> if s = [] then adminNotes b else Some s)\<rparr>)"
proof -
  define found where "found = Seat_find_in (seatLabels b) (seats d)"
  define S where "S = map (\<lambda>t. if seat_id t \<in> seat_id ` set found
                             then t\<lparr>seat_status := Occupied, occupiedByBookingId := Some i\<rparr>
                             else t) (seats d)"
  define b' where "b' = b\<lparr>status := Approved, seatIds := map seat_id found,
                           adminNotes := (case n of None \<Rightarrow> adminNotes b
                                          | Some s \<Rightarrow> if s = [] then adminNotes b else Some s)\<rparr>"
  have id: "booking_id b = i"
    using assms(1) by (rule findById_id)
  have m: "filter (\<lambda>l. l \<notin> label ` set (seats d)) (seatLabels b) = []"
    using assms(4) by (auto simp: filter_empty_conv)
  have t: "filter (\<lambda>s. label s \<in> set (seatLabels b) \<and> seat_status s \<noteq> Available) (seats d) = []"
    using assms(5) by (auto simp: filter_empty_conv)
  have vs: "list_all validate_seat (Seat_find_in (seatLabels b) (seats d))"
    using assms(5) by (auto simp: list_all_iff Seat_find_in_def validate_seat_def)
  have vb: "validate_booking b"
    using assms(3) by (simp add: validate_booking_def)
  have eq: "approve None i n d =
      (BookingApproved i (seatLabels b), d\<lparr>seats := S, bookings := booking_update b' (bookings d)\<rparr>)"
    unfolding S_def b'_def found_def
    by (simp add: approve_None assms(1) assms(2) m t id vs vb)
  have l: "map label S = map label (seats d)"
    unfolding S_def by (simp add: o_def)
  have k: "map seat_id S = map seat_id (seats d)"
    unfolding S_def by (simp add: o_def)
  have o: "\<forall>s \<in> set S. label s \<in> set (seatLabels b) \<longrightarrow>
             seat_status s = Occupied \<and> occupiedByBookingId s = Some i"
    unfolding S_def found_def by (auto simp: Seat_find_in_def)
  have bk: "findById i (booking_update b' (bookings d)) =
      Some (b\<lparr>status := Approved,
              seatIds := map seat_id (filter (\<lambda>s. label s \<in> set (seatLabels b)) (seats d)),
              adminNotes := (case n of None \<Rightarrow> adminNotes b
                             | Some s \<Rightarrow> if s = [] then adminNotes b else Some s)\<rparr>)"
    using assms(1) id
    by (simp add: findById_booking_update b'_def found_def Seat_find_in_def)
  show ?thesis
    unfolding eq using l k o bk by simp
qed

lemma hall_booking_valid:
  "email (mk_booking i ls st) \<noteq> [] \<and> matches email_rx (email (mk_booking i ls st)) \<and>
   phone (mk_booking i ls st) \<noteq> [] \<and> matches phone_rx (phone (mk_booking i ls st)) \<and>
   1 \<le> amount (mk_booking i ls st)"
proof -
  have "matches email_rx ''a@b.co''" by code_simp
  moreover have "matches phone_rx ''9876543210''" by code_simp
  ultimately show ?thesis by (simp add: mk_booking_def)
qed

text \<open>
  Booking 7 of the hall, approved with the note "paid": the reply, the status, the note,
  and the seats A1 and A2 afterwards.
\<close>

theorem approve_success_witness:
  "findById 7 (bookings hall) = Some (mk_booking 7 [''A2'', ''A1''] Pending) \<and>
   fst (approve None 7 (Some ''paid'') hall) = BookingApproved 7 [''A2'', ''A1''] \<and>
   map_option status (findById 7 (bookings (snd (approve None 7 (Some ''paid'') hall)))) =
     Some Approved \<and>
   map_option adminNotes (findById 7 (bookings (snd (approve None 7 (Some ''paid'') hall)))) =
     Some (Some ''paid'') \<and>
   map_option seatIds (findById 7 (bookings (snd (approve None 7 (Some ''paid'') hall)))) =
     Some [1, 2] \<and>
   label (seats (snd (approve None 7 (Some ''paid'') hall)) ! 0) = ''A1'' \<and>
   seat_status (seats (snd (approve None 7 (Some ''paid'') hall)) ! 0) = Occupied \<and>
   occupiedByBookingId (seats (snd (approve None 7 (Some ''paid'') hall)) ! 0) = Some 7"
proof -
  let ?d' = "snd (approve None 7 (Some ''paid'') hall)"
  have h1: "findById 7 (bookings hall) = Some (mk_booking 7 [''A2'', ''A1''] Pending)"
    by code_simp
  have h2: "status (mk_booking 7 [''A2'', ''A1''] Pending) = Pending"
    by (simp add: mk_booking_def)
  note h3 = hall_booking_valid [of 7 "[''A2'', ''A1'']" Pending]
  have h4: "set (seatLabels (mk_booking 7 [''A2'', ''A1''] Pending)) \<subseteq> label ` set (seats hall)"
    by code_simp
  have h5: "\<forall>s \<in> set (seats hall).
      label s \<in> set (seatLabels (mk_booking 7 [''A2'', ''A1''] Pending)) \<longrightarrow>
      seat_status s = Available \<and> label s \<noteq> [] \<and> row s \<noteq> []"
    by code_simp
  have ids: "map seat_id (filter (\<lambda>s. label s \<in> set [''A2'', ''A1'']) (seats hall)) = [1, 2]"
    by code_simp
  have sl: "seatLabels (mk_booking 7 [''A2'', ''A1''] Pending) = [''A2'', ''A1'']"
    by (simp add: mk_booking_def)
  have lh: "map label (seats hall) = [''A1'', ''A2'', ''A3'']"
    by code_simp
  note r = approve_success [OF h1 h2 h3 h4 h5, of "Some ''paid''", unfolded sl ids]
  from r lh have m3: "map label (seats ?d') = [''A1'', ''A2'', ''A3'']"
    by simp
  from length_map [of label "seats ?d'"] m3 have len: "length (seats ?d') = 3"
    by simp
  from nth_map [of 0 "seats ?d'" label] m3 len have l0: "label (seats ?d' ! 0) = ''A1''"
    by simp
  from len have mem: "seats ?d' ! 0 \<in> set (seats ?d')"
    by simp
  from r have "\<forall>s \<in> set (seats ?d'). label s \<in> set [''A2'', ''A1''] \<longrightarrow>
      seat_status s = Occupied \<and> occupiedByBookingId s = Some 7"
    by blast
  from this [rule_format, OF mem] l0
  have o: "seat_status (seats ?d' ! 0) = Occupied \<and> occupiedByBookingId (seats ?d' ! 0) = Some 7"
    by simp
  from r h1 l0 o show ?thesis
    by (simp add: mk_booking_def)
qed

subsection \<open>What a successful approve leaves alone\<close>

lemma occupy_all_Some_None:
  "occupy_all f k b ss coll = Some c \<Longrightarrow> occupy_all None k b ss coll = Some c"
  by (induction ss arbitrary: k coll) (auto simp: seat_save_def split: if_splits option.splits)

lemma booking_save_Some_None:
  "booking_save f k b bs = Some c \<Longrightarrow> booking_save None k b bs = Some c"
  by (auto simp: booking_save_def split: if_splits)

lemma approve_try_success_no_fault:
  assumes "approve_try f i n ses = Inr (r, d')"
  shows "approve_try None i n ses = Inr (r, d')"
proof (cases "findById i (bookings (working ses))")
  case None
  with assms show ?thesis
    by (simp add: approve_try_def split: if_splits)
next
  case (Some b)
  let ?found = "Seat_find_in (seatLabels b) (seats (working ses))"
  let ?b' = "b\<lparr>status := Approved, seatIds := map seat_id ?found,
                adminNotes := (if truthy n then n else adminNotes b)\<rparr>"
  show ?thesis
  proof (cases "status b \<noteq> Pending \<or>
      filter (\<lambda>l. l \<notin> set (map label ?found)) (seatLabels b) \<noteq> [] \<or>
      map label (filter (\<lambda>s. seat_status s \<noteq> Available) ?found) \<noteq> []")
    case True
    with assms Some show ?thesis
      by (auto simp: approve_try_def Let_def split: if_splits)
  next
    case False
    with assms Some obtain coll' where c: "occupy_all f 2 (booking_id b) ?found
        (seats (working ses)) = Some coll'"
      by (auto simp: approve_try_def Let_def split: if_splits option.splits)
    with assms Some False obtain bs' where bs: "booking_save f (2 + length ?found) ?b'
        (bookings (working ses)) = Some bs'"
      by (auto simp: approve_try_def Let_def split: if_splits option.splits)
    from c have c0: "occupy_all None 2 (booking_id b) ?found (seats (working ses)) = Some coll'"
      by (rule occupy_all_Some_None)
    from bs have bs0: "booking_save None (2 + length ?found) ?b' (bookings (working ses)) =
        Some bs'"
      by (rule booking_save_Some_None)
    from assms Some False c bs c0 bs0 show ?thesis
      by (simp add: approve_try_def Let_def split: if_splits)
  qed
qed

lemma success_means_no_fault:
  "is_success (fst (approve f i n d)) \<Longrightarrow> approve f i n d = approve None i n d"
proof (cases "approve_try f i n (startTransaction d)")
  case (Inl e)
  assume "is_success (fst (approve f i n d))"
  with Inl show ?thesis
    by (cases e) (simp_all add: approve_def Let_def is_success_def)
next
  case (Inr p)
  obtain r d' where p: "p = (r, d')" by (cases p)
  from Inr p approve_try_success_no_fault
  have "approve_try None i n (startTransaction d) = Inr (r, d')"
    by blast
  with Inr p show ?thesis
    by (simp add: approve_def Let_def)
qed

lemma distinct_map_eq:
  "distinct (map g xs) \<Longrightarrow> x \<in> set xs \<Longrightarrow> y \<in> set xs \<Longrightarrow> g x = g y \<Longrightarrow> x = y"
  by (auto simp: distinct_map dest: inj_onD)

text \<open>
  C10. When approve replies with success for booking \<open>i\<close>, the labels in the reply are
  the requested labels of that booking, and in the database after the call every seat
  whose label is not among them is the seat it was, every booking other than \<open>i\<close> is the
  booking it was, no document was added or removed, and the uploads are untouched. The
  store keeps \<^verbatim>\<open>_id\<close> and the seat label unique.
\<close>

theorem approve_frame:
  assumes wf: "wf_db d"
    and ok: "approve f i n d = (BookingApproved j ls, d')"
  shows "j = i \<and>
         map_option seatLabels (findById i (bookings d)) = Some ls \<and>
         length (seats d') = length (seats d) \<and>
         (\<forall>k < length (seats d). label (seats d ! k) \<notin> set ls \<longrightarrow> seats d' ! k = seats d ! k) \<and>
         length (bookings d') = length (bookings d) \<and>
         (\<forall>k < length (bookings d).
             booking_id (bookings d ! k) \<noteq> i \<longrightarrow> bookings d' ! k = bookings d ! k) \<and>
         uploads d' = uploads d"
proof -
  have "is_success (fst (approve f i n d))"
    by (simp add: ok is_success_def)
  then have eq: "approve None i n d = (BookingApproved j ls, d')"
    using ok success_means_no_fault by metis
  then obtain b where b: "findById i (bookings d) = Some b"
    and jl: "j = booking_id b" "ls = seatLabels b"
    and d': "d' = d\<lparr>seats :=
                    map (\<lambda>t. if seat_id t \<in> seat_id ` set (Seat_find_in (seatLabels b) (seats d))
                             then t\<lparr>seat_status := Occupied,
                                    occupiedByBookingId := Some (booking_id b)\<rparr>
                             else t) (seats d),
                  bookings :=
                    booking_update
                      (b\<lparr>status := Approved,
                         seatIds := map seat_id (Seat_find_in (seatLabels b) (seats d)),
                         adminNotes := (case n of None \<Rightarrow> adminNotes b
                                        | Some s \<Rightarrow> if s = [] then adminNotes b else Some s)\<rparr>)
                      (bookings d)\<rparr>"
    by (auto simp: approve_None split: option.splits if_splits)
  have id: "booking_id b = i"
    using b by (rule findById_id)
  have s: "seats d' ! k = seats d ! k"
    if "k < length (seats d)" "label (seats d ! k) \<notin> set ls" for k
  proof -
    have "seat_id (seats d ! k) \<notin> seat_id ` set (Seat_find_in ls (seats d))"
    proof
      assume "seat_id (seats d ! k) \<in> seat_id ` set (Seat_find_in ls (seats d))"
      then obtain u where u: "u \<in> set (seats d)" "label u \<in> set ls"
          "seat_id (seats d ! k) = seat_id u"
        by (auto simp: Seat_find_in_def)
      have "seats d ! k \<in> set (seats d)"
        using that(1) by simp
      with wf u have "seats d ! k = u"
        unfolding wf_db_def by (metis distinct_map_eq)
      with u that(2) show False by simp
    qed
    then show ?thesis
      using that(1) by (simp add: d' jl)
  qed
  have bk: "bookings d' ! k = bookings d ! k"
    if "k < length (bookings d)" "booking_id (bookings d ! k) \<noteq> i" for k
    using that by (simp add: d' booking_update_def id)
  show ?thesis
    using s bk b id jl by (simp add: d' booking_update_def)
qed

text \<open>Approving booking 7 of the hall (seats A2 and A1) leaves seat A3 as it was.\<close>

theorem approve_frame_witness:
  "wf_db hall \<and> seats (snd (approve None 7 None hall)) ! 2 = seats hall ! 2"
proof -
  have wf: "wf_db hall" by code_simp
  have ok: "approve None 7 None hall =
      (BookingApproved 7 [''A2'', ''A1''], snd (approve None 7 None hall))"
    by code_simp
  have l: "label (seats hall ! 2) \<notin> set [''A2'', ''A1'']"
    by code_simp
  have n: "(2::nat) < length (seats hall)"
    by code_simp
  from approve_frame [OF wf ok] l n wf show ?thesis
    by blast
qed

subsection \<open>Reject\<close>

lemma length_booking_update [simp]: "length (booking_update b bs) = length bs"
  by (simp add: booking_update_def)

lemma reject_None:
  "reject None i n d =
     (case findById i (bookings d) of
        None \<Rightarrow> (Error 404 ''Booking not found'', d)
      | Some b \<Rightarrow>
          if status b \<noteq> Pending
          then (Error 400 (''Booking status is '' @ status_name (status b) @ '', cannot reject''), d)
          else if validate_booking b
          then (BookingRejected (booking_id b),
                d\<lparr>bookings :=
                    booking_update
                      (b\<lparr>status := Rejected,
                         adminNotes := (case n of None \<Rightarrow> adminNotes b
                                        | Some s \<Rightarrow> if s = [] then adminNotes b else Some s)\<rparr>)
                      (bookings d)\<rparr>)
          else (Error 500 ''Reject failed'', d))"
  unfolding reject_def Let_def truthy_note
  by (simp add: booking_save_def split: option.splits)

text \<open>
  C8, as the spec states it, has the admin note set whenever one is supplied. Booking 7 of
  the hall is pending and has no note; rejected with the empty string as note, it is
  rejected and still has no note.
\<close>

theorem reject_empty_note_counterexample:
  "map_option status (findById 7 (bookings hall)) = Some Pending \<and>
   map_option adminNotes (findById 7 (bookings hall)) = Some None \<and>
   fst (reject None 7 (Some []) hall) = BookingRejected 7 \<and>
   map_option status (findById 7 (bookings (snd (reject None 7 (Some []) hall)))) =
     Some Rejected \<and>
   map_option adminNotes (findById 7 (bookings (snd (reject None 7 (Some []) hall)))) =
     Some None"
  by code_simp

text \<open>
  C8, amended. The reject handler never changes the seats, whether it succeeds, fails a
  check or meets a storage call that throws. With a store that works it replies 404
  "Booking not found" when no booking has the id and 400 with the current status when the
  booking is not pending, both without any change. For a pending booking that passes the
  validators of the booking schema it replies with success: the booking is rejected, its
  admin note is the note of the request when that is a string that is not empty and the
  note it had otherwise, its other fields are as they were, every booking with another id
  is the booking it was, and no booking or upload was added or removed. For a pending
  booking that fails a validator the reply is 500, without any change.
\<close>

theorem reject_contract:
  "seats (snd (reject f i n d)) = seats d \<and>
   (case findById i (bookings d) of
      None \<Rightarrow> reject None i n d = (Error 404 ''Booking not found'', d)
    | Some b \<Rightarrow>
        if status b \<noteq> Pending
        then reject None i n d =
               (Error 400 (''Booking status is '' @ status_name (status b) @ '', cannot reject''), d)
        else if email b \<noteq> [] \<and> matches email_rx (email b) \<and>
                phone b \<noteq> [] \<and> matches phone_rx (phone b) \<and> 1 \<le> amount b
        then fst (reject None i n d) = BookingRejected i \<and>
             findById i (bookings (snd (reject None i n d))) =
               Some (b\<lparr>status := Rejected,
                       adminNotes := (case n of None \<Rightarrow> adminNotes b
                                      | Some s \<Rightarrow> if s = [] then adminNotes b else Some s)\<rparr>) \<and>
             length (bookings (snd (reject None i n d))) = length (bookings d) \<and>
             (\<forall>k < length (bookings d).
                 booking_id (bookings d ! k) \<noteq> i \<longrightarrow>
                 bookings (snd (reject None i n d)) ! k = bookings d ! k) \<and>
             uploads (snd (reject None i n d)) = uploads d
        else reject None i n d = (Error 500 ''Reject failed'', d))"
proof -
  have s: "seats (snd (reject f i n d)) = seats d"
    by (simp add: reject_def Let_def split: option.splits)
  show ?thesis
  proof (cases "findById i (bookings d)")
    case None
    then show ?thesis using s by (simp add: reject_None)
  next
    case (Some b)
    then have id: "booking_id b = i" by (rule findById_id)
    have v: "validate_booking b =
        (email b \<noteq> [] \<and> matches email_rx (email b) \<and>
         phone b \<noteq> [] \<and> matches phone_rx (phone b) \<and> 1 \<le> amount b)"
      by (simp add: validate_booking_def)
    have o: "booking_update b' (bookings d) ! k = bookings d ! k"
      if "k < length (bookings d)" "booking_id (bookings d ! k) \<noteq> i" "booking_id b' = i"
      for k b'
      using that by (simp add: booking_update_def)
    show ?thesis
      using Some id o
      by (simp add: s) (simp add: reject_None findById_booking_update v)
  qed
qed

text \<open>
  In the hall: no booking 99; booking 10 is approved and holds seat A3; booking 7 is
  pending and is rejected with the note "blurred", which leaves booking 8 and the seats
  as they were.
\<close>

theorem reject_contract_witness:
  "reject None 99 None hall = (Error 404 ''Booking not found'', hall) \<and>
   reject None 10 None hall = (Error 400 ''Booking status is approved, cannot reject'', hall) \<and>
   fst (reject None 7 (Some ''blurred'') hall) = BookingRejected 7 \<and>
   findById 7 (bookings (snd (reject None 7 (Some ''blurred'') hall))) =
     Some ((mk_booking 7 [''A2'', ''A1''] Pending)
             \<lparr>status := Rejected, adminNotes := Some ''blurred''\<rparr>) \<and>
   bookings (snd (reject None 7 (Some ''blurred'') hall)) ! 1 = bookings hall ! 1 \<and>
   seats (snd (reject None 7 (Some ''blurred'') hall)) = seats hall"
proof -
  have a: "findById 99 (bookings hall) = None" by code_simp
  have b: "findById 10 (bookings hall) = Some ((mk_booking 10 [''A3''] Approved)\<lparr>seatIds := [3]\<rparr>)"
    by code_simp
  have c: "findById 7 (bookings hall) = Some (mk_booking 7 [''A2'', ''A1''] Pending)"
    by code_simp
  have k: "(1::nat) < length (bookings hall)" by code_simp
  have o: "booking_id (bookings hall ! 1) \<noteq> 7" by code_simp
  note v = hall_booking_valid [of 7 "[''A2'', ''A1'']" Pending]
  have p: "status (mk_booking 7 [''A2'', ''A1''] Pending) = Pending"
    by (simp add: mk_booking_def)
  from reject_contract [of None 99 None hall] a
  have 1: "reject None 99 None hall = (Error 404 ''Booking not found'', hall)"
    by simp
  from reject_contract [of None 10 None hall] b
  have 2: "reject None 10 None hall =
      (Error 400 ''Booking status is approved, cannot reject'', hall)"
    by (simp add: mk_booking_def status_name_def)
  from reject_contract [of None 7 "Some ''blurred''" hall] c v p k o
  have 3: "fst (reject None 7 (Some ''blurred'') hall) = BookingRejected 7 \<and>
      findById 7 (bookings (snd (reject None 7 (Some ''blurred'') hall))) =
        Some ((mk_booking 7 [''A2'', ''A1''] Pending)
                \<lparr>status := Rejected, adminNotes := Some ''blurred''\<rparr>) \<and>
      bookings (snd (reject None 7 (Some ''blurred'') hall)) ! 1 = bookings hall ! 1 \<and>
      seats (snd (reject None 7 (Some ''blurred'') hall)) = seats hall"
    by simp
  from 1 2 3 show ?thesis by simp
qed

subsection \<open>The status of a booking over any run\<close>

lemma findById_booking_update_other:
  "booking_id b' \<noteq> i \<Longrightarrow> findById i (booking_update b' bs) = findById i bs"
  unfolding findById_def booking_update_def
  by (induction bs) auto

lemma find_append:
  "find P (xs @ ys) = (case find P xs of None \<Rightarrow> find P ys | Some x \<Rightarrow> Some x)"
  by (induction xs) auto

lemma submit_bookings:
  "bookings (snd (submit f rq d)) = bookings d \<or>
   (\<exists>doc. bookings (snd (submit f rq d)) = bookings d @ [doc])"
  unfolding submit_def Let_def
  by (auto split: sum.splits option.splits prod.splits)

lemma submit_seats [simp]: "seats (snd (submit f rq d)) = seats d"
  unfolding submit_def Let_def
  by (auto split: sum.splits option.splits prod.splits)

lemma init_bookings [simp]: "bookings (snd (init rows perRow d)) = bookings d"
  by (simp add: init_def Let_def)

lemma occupy_bookings [simp]: "bookings (snd (occupy l d)) = bookings d"
  by (simp add: occupy_def Let_def split: prod.splits option.splits)

lemma release_bookings [simp]: "bookings (snd (release l d)) = bookings d"
  by (simp add: release_def Let_def split: prod.splits option.splits)

lemma approve_None_status_step:
  assumes "findById i (bookings d) = Some b"
  shows "\<exists>b'. findById i (bookings (snd (approve None j n d))) = Some b' \<and>
              (status b' = status b \<or> status b = Pending \<and> status b' = Approved)"
proof (cases "findById j (bookings d)")
  case None
  then show ?thesis using assms by (simp add: approve_None)
next
  case (Some c)
  then have id: "booking_id c = j" by (rule findById_id)
  show ?thesis
  proof (cases "j = i")
    case True
    with Some assms have "c = b" by simp
    then show ?thesis
      using assms Some True id by (simp add: approve_None findById_booking_update)
  next
    case False
    then show ?thesis
      using assms Some id by (simp add: approve_None findById_booking_update_other)
  qed
qed

lemma approve_status_step:
  assumes "findById i (bookings d) = Some b"
  shows "\<exists>b'. findById i (bookings (snd (approve f j n d))) = Some b' \<and>
              (status b' = status b \<or> status b = Pending \<and> status b' = Approved)"
proof (cases "is_success (fst (approve f j n d))")
  case False
  then show ?thesis
    using assms by (simp add: approve_failure_keeps_db)
next
  case True
  then have "approve f j n d = approve None j n d"
    by (rule success_means_no_fault)
  then show ?thesis
    using approve_None_status_step [OF assms, of j n] by simp
qed

lemma reject_None_status_step:
  assumes "findById i (bookings d) = Some b"
  shows "\<exists>b'. findById i (bookings (snd (reject None j n d))) = Some b' \<and>
              (status b' = status b \<or> status b = Pending \<and> status b' = Rejected)"
proof (cases "findById j (bookings d)")
  case None
  then show ?thesis using assms by (simp add: reject_None)
next
  case (Some c)
  then have id: "booking_id c = j" by (rule findById_id)
  show ?thesis
  proof (cases "j = i")
    case True
    with Some assms have "c = b" by simp
    then show ?thesis
      using assms Some True id by (simp add: reject_None findById_booking_update)
  next
    case False
    then show ?thesis
      using assms Some id by (simp add: reject_None findById_booking_update_other)
  qed
qed

lemma reject_fault:
  "reject f j n d = reject None j n d \<or> snd (reject f j n d) = d"
  by (auto simp: reject_def Let_def booking_save_def split: option.splits)

lemma reject_status_step:
  assumes "findById i (bookings d) = Some b"
  shows "\<exists>b'. findById i (bookings (snd (reject f j n d))) = Some b' \<and>
              (status b' = status b \<or> status b = Pending \<and> status b' = Rejected)"
  using reject_fault [of f j n d] reject_None_status_step [OF assms, of j n] assms
  by auto

lemma handle_status_step:
  assumes "findById i (bookings d) = Some b"
  shows "\<exists>b'. findById i (bookings (snd (handle r d))) = Some b' \<and>
              (status b' = status b \<or>
               status b = Pending \<and> (status b' = Approved \<or> status b' = Rejected))"
proof (cases r)
  case (Submit f rq)
  from submit_bookings [of f rq d] show ?thesis
    using assms Submit by (auto simp: findById_def find_append)
next
  case (ApproveBooking f j n)
  from approve_status_step [OF assms, of f j n] show ?thesis
    using ApproveBooking by auto
next
  case (RejectBooking f j n)
  from reject_status_step [OF assms, of f j n] show ?thesis
    using RejectBooking by auto
qed (use assms in simp_all)

text \<open>
  C6. Take any booking, found by its id, and any sequence of requests (inventory
  initialisation, manual occupy and release, intake, approve, reject, each with or
  without a storage call that throws). After the sequence the booking is still found by
  its id, and its status is the one it had, unless it was pending and is now approved or
  rejected. So a booking that is approved or rejected keeps its status for ever, and no
  booking re-enters pending.
\<close>

theorem no_resurrection:
  assumes "findById i (bookings d) = Some b"
  shows "\<exists>b'. findById i (bookings (run rs d)) = Some b' \<and>
              (status b' = status b \<or>
               status b = Pending \<and> (status b' = Approved \<or> status b' = Rejected))"
  using assms
proof (induction rs arbitrary: d b)
  case Nil
  then show ?case by simp
next
  case (Cons r rs)
  from handle_status_step [OF Cons.prems, of r]
  obtain c where c: "findById i (bookings (snd (handle r d))) = Some c"
    and sc: "status c = status b \<or>
             status b = Pending \<and> (status c = Approved \<or> status c = Rejected)"
    by blast
  from Cons.IH [OF c]
  obtain b' where b': "findById i (bookings (run rs (snd (handle r d)))) = Some b'"
    and sb: "status b' = status c \<or>
             status c = Pending \<and> (status b' = Approved \<or> status b' = Rejected)"
    by blast
  from sc sb have "status b' = status b \<or>
      status b = Pending \<and> (status b' = Approved \<or> status b' = Rejected)"
    by auto
  with b' show ?case by simp
qed

text \<open>
  Booking 10 of the hall is approved. It is still approved after a reject of it, a
  release of its seat and another approve of it.
\<close>

theorem no_resurrection_witness:
  "findById 10 (bookings hall) = Some ((mk_booking 10 [''A3''] Approved)\<lparr>seatIds := [3]\<rparr>) \<and>
   (\<exists>b'. findById 10 (bookings (run [RejectBooking None 10 None, ReleaseSeat ''A3'',
              ApproveBooking None 10 None] hall)) = Some b' \<and> status b' = Approved)"
proof -
  have h: "findById 10 (bookings hall) = Some ((mk_booking 10 [''A3''] Approved)\<lparr>seatIds := [3]\<rparr>)"
    by code_simp
  from no_resurrection [OF h, of "[RejectBooking None 10 None, ReleaseSeat ''A3'',
              ApproveBooking None 10 None]"] h
  show ?thesis
    by (auto simp: mk_booking_def)
qed

subsection \<open>The seat invariant\<close>

lemma findOneAndUpdate_list_all:
  "list_all Q xs \<Longrightarrow> (\<And>x. Q x \<Longrightarrow> P x \<Longrightarrow> Q (u x)) \<Longrightarrow>
   list_all Q (snd (findOneAndUpdate P u xs))"
  by (induction xs) (auto split: prod.splits)

lemma upsertSeat_list_all:
  assumes "list_all Q coll"
    and "\<And>s r n t l. Q s \<Longrightarrow> Q (s\<lparr>row := r, number := n, seat_type := t, label := l\<rparr>)"
    and "\<And>i l r n t. Q \<lparr>seat_id = i, label = l, row = r, number = n, seat_type = t,
                          seat_status = Available, occupiedByBookingId = None\<rparr>"
  shows "list_all Q (upsertSeat op coll)"
proof -
  obtain r n where op: "op = (r, n)" by (cases op)
  have "list_all Q (snd (findOneAndUpdate (\<lambda>s. label s = r @ show_nat n)
          (\<lambda>s. s\<lparr>row := r, number := n, seat_type := rowToType r, label := r @ show_nat n\<rparr>) coll))"
    using assms(1) assms(2) by (rule findOneAndUpdate_list_all)
  then show ?thesis
    using assms(1) assms(3)
    by (auto simp: upsertSeat_def op Let_def split: prod.splits option.splits)
qed

lemma fold_upsertSeat_list_all:
  assumes "list_all Q coll"
    and "\<And>s r n t l. Q s \<Longrightarrow> Q (s\<lparr>row := r, number := n, seat_type := t, label := l\<rparr>)"
    and "\<And>i l r n t. Q \<lparr>seat_id = i, label = l, row = r, number = n, seat_type = t,
                          seat_status = Available, occupiedByBookingId = None\<rparr>"
  shows "list_all Q (fold upsertSeat ops coll)"
  using assms(1)
proof (induction ops arbitrary: coll)
  case Nil
  then show ?case by simp
next
  case (Cons op ops)
  have "list_all Q (upsertSeat op coll)"
    using Cons.prems assms(2) assms(3) by (rule upsertSeat_list_all)
  then show ?case
    by (simp add: Cons.IH)
qed

lemma approve_list_all:
  assumes "list_all Q (seats d)"
    and "\<And>s b. Q s \<Longrightarrow> Q (s\<lparr>seat_status := Occupied, occupiedByBookingId := Some b\<rparr>)"
  shows "list_all Q (seats (snd (approve f i n d)))"
proof (cases "is_success (fst (approve f i n d))")
  case False
  then show ?thesis
    using assms(1) by (simp add: approve_failure_keeps_db)
next
  case True
  then have "approve f i n d = approve None i n d"
    by (rule success_means_no_fault)
  then show ?thesis
    using assms by (auto simp: approve_None list_all_iff split: option.splits)
qed

lemma handle_list_all:
  assumes inv: "list_all Q (seats d)"
    and struct: "\<And>s r n t l. Q s \<Longrightarrow> Q (s\<lparr>row := r, number := n, seat_type := t, label := l\<rparr>)"
    and new: "\<And>i l r n t. Q \<lparr>seat_id = i, label = l, row = r, number = n, seat_type = t,
                          seat_status = Available, occupiedByBookingId = None\<rparr>"
    and mark: "\<And>s b. Q s \<Longrightarrow> Q (s\<lparr>seat_status := Occupied, occupiedByBookingId := Some b\<rparr>)"
    and rel: "\<And>s. Q s \<Longrightarrow> Q (s\<lparr>seat_status := Available, occupiedByBookingId := None\<rparr>)"
    and occ: "\<And>s l. r = OccupySeat l \<Longrightarrow> Q s \<Longrightarrow> Q (s\<lparr>seat_status := Occupied\<rparr>)"
  shows "list_all Q (seats (snd (handle r d)))"
proof (cases r)
  case (Init rows perRow)
  show ?thesis
    using fold_upsertSeat_list_all [of Q, OF inv struct new]
    by (simp add: Init init_def Let_def)
next
  case (OccupySeat l)
  have "list_all Q (snd (findOneAndUpdate (\<lambda>s. label s = toUpperCase l)
          (\<lambda>s. s\<lparr>seat_status := Occupied\<rparr>) (seats d)))"
    using inv occ [OF OccupySeat] by (rule findOneAndUpdate_list_all)
  then show ?thesis
    using inv by (auto simp: OccupySeat occupy_def Let_def split: prod.splits option.splits)
next
  case (ReleaseSeat l)
  have "list_all Q (snd (findOneAndUpdate (\<lambda>s. label s = toUpperCase l)
          (\<lambda>s. s\<lparr>seat_status := Available, occupiedByBookingId := None\<rparr>) (seats d)))"
    using inv rel by (rule findOneAndUpdate_list_all)
  then show ?thesis
    using inv by (auto simp: ReleaseSeat release_def Let_def split: prod.splits option.splits)
next
  case (Submit f rq)
  then show ?thesis using inv by simp
next
  case (ApproveBooking f i n)
  then show ?thesis
    using approve_list_all [of Q, OF inv mark] by simp
next
  case (RejectBooking f i n)
  then show ?thesis
    using inv by (simp add: reject_def Let_def split: option.splits)
qed

text \<open>
  C1, amended. Every request keeps the implication "a seat with an occupant link is
  occupied" on all seats. Every request other than the manual occupy keeps the
  equivalence "a seat has an occupant link exactly when it is occupied" on all seats; so
  do, in particular, the manual release and approve. The manual occupy writes the status
  only.
\<close>

theorem seat_invariant_preserved:
  "(list_all seat_linked_occupied (seats d) \<longrightarrow>
      list_all seat_linked_occupied (seats (snd (handle r d)))) \<and>
   ((\<forall>l. r \<noteq> OccupySeat l) \<longrightarrow> list_all seat_inv (seats d) \<longrightarrow>
      list_all seat_inv (seats (snd (handle r d))))"
proof (intro conjI impI)
  assume "list_all seat_linked_occupied (seats d)"
  then show "list_all seat_linked_occupied (seats (snd (handle r d)))"
    by (rule handle_list_all) (simp_all add: seat_linked_occupied_def)
next
  assume "\<forall>l. r \<noteq> OccupySeat l" and "list_all seat_inv (seats d)"
  from this(2) show "list_all seat_inv (seats (snd (handle r d)))"
    by (rule handle_list_all) (use \<open>\<forall>l. r \<noteq> OccupySeat l\<close> in \<open>simp_all add: seat_inv_def\<close>)
qed

text \<open>
  C1, as the spec states it, includes the manual occupy. In the hall every seat has a
  link exactly when it is occupied; after the manual occupy of A1 that seat is occupied
  and has no link.
\<close>

theorem occupy_breaks_seat_inv_counterexample:
  "list_all seat_inv (seats hall) \<and>
   \<not> list_all seat_inv (seats (snd (handle (OccupySeat ''a1'') hall)))"
  by code_simp

text \<open>The hall, after an approve, after a release, and after a manual occupy.\<close>

theorem seat_invariant_preserved_witness:
  "list_all seat_inv (seats hall) \<and>
   list_all seat_inv (seats (snd (handle (ApproveBooking None 7 None) hall))) \<and>
   list_all seat_inv (seats (snd (handle (ReleaseSeat ''a3'') hall))) \<and>
   list_all seat_linked_occupied (seats (snd (handle (OccupySeat ''a1'') hall)))"
proof -
  have h: "list_all seat_inv (seats hall)" by code_simp
  have w: "list_all seat_linked_occupied (seats hall)" by code_simp
  from seat_invariant_preserved [of hall "ApproveBooking None 7 None"] h
  have 1: "list_all seat_inv (seats (snd (handle (ApproveBooking None 7 None) hall)))"
    by simp
  from seat_invariant_preserved [of hall "ReleaseSeat ''a3''"] h
  have 2: "list_all seat_inv (seats (snd (handle (ReleaseSeat ''a3'') hall)))"
    by simp
  from seat_invariant_preserved [of hall "OccupySeat ''a1''"] w
  have 3: "list_all seat_linked_occupied (seats (snd (handle (OccupySeat ''a1'') hall)))"
    by simp
  from h 1 2 3 show ?thesis by simp
qed

subsection \<open>Inventory initialisation\<close>

lemma findOneAndUpdate_None:
  "(fst (findOneAndUpdate P u xs) = None) = (\<forall>x \<in> set xs. \<not> P x)"
  by (induction xs) (auto split: prod.splits)

lemma findOneAndUpdate_map:
  "(\<And>x. P x \<Longrightarrow> g (u x) = g x) \<Longrightarrow> map g (snd (findOneAndUpdate P u xs)) = map g xs"
  by (induction xs) (auto split: prod.splits)

lemma findOneAndUpdate_elems:
  "distinct (map label xs) \<Longrightarrow> s \<in> set (snd (findOneAndUpdate (\<lambda>s. label s = l) u xs)) \<Longrightarrow>
   (\<exists>x \<in> set xs. label x = l \<and> s = u x) \<or> (s \<in> set xs \<and> label s \<noteq> l)"
  by (induction xs) (auto simp: image_iff split: prod.splits if_splits)

lemma upsertSeat_cases:
  "upsertSeat (r, n) coll =
     (if r @ show_nat n \<in> label ` set coll
      then snd (findOneAndUpdate (\<lambda>s. label s = r @ show_nat n)
                 (\<lambda>s. s\<lparr>row := r, number := n, seat_type := rowToType r,
                        label := r @ show_nat n\<rparr>) coll)
      else coll @ [\<lparr>seat_id = fresh_id (map seat_id coll), label = r @ show_nat n, row = r,
                     number = n, seat_type = rowToType r, seat_status = Available,
                     occupiedByBookingId = None\<rparr>])"
proof -
  let ?P = "\<lambda>s. label s = r @ show_nat n"
  let ?u = "\<lambda>s. s\<lparr>row := r, number := n, seat_type := rowToType r, label := r @ show_nat n\<rparr>"
  have "(fst (findOneAndUpdate ?P ?u coll) = None) = (r @ show_nat n \<notin> label ` set coll)"
    by (auto simp: findOneAndUpdate_None image_iff)
  then show ?thesis
    by (auto simp: upsertSeat_def Let_def split: prod.splits option.splits)
qed

lemma update_keeps_label:
  "map label (snd (findOneAndUpdate (\<lambda>s. label s = l)
      (\<lambda>s. s\<lparr>row := r, number := n, seat_type := t, label := l\<rparr>) coll)) = map label coll"
  by (rule findOneAndUpdate_map) simp

lemma update_keeps_core:
  "map core (snd (findOneAndUpdate (\<lambda>s. label s = l)
      (\<lambda>s. s\<lparr>row := r, number := n, seat_type := t, label := l\<rparr>) coll)) = map core coll"
  by (rule findOneAndUpdate_map) (simp add: core_def)

lemma upsertSeat_labels:
  "map label (upsertSeat (r, n) coll) =
     (if r @ show_nat n \<in> label ` set coll then map label coll
      else map label coll @ [r @ show_nat n])"
  by (simp add: upsertSeat_cases update_keeps_label)

lemma upsertSeat_core: "\<exists>new. map core (upsertSeat op coll) = map core coll @ new"
  by (cases op) (simp add: upsertSeat_cases update_keeps_core)

lemma fold_upsertSeat_core: "\<exists>new. map core (fold upsertSeat ops coll) = map core coll @ new"
proof (induction ops arbitrary: coll)
  case Nil
  then show ?case by simp
next
  case (Cons op ops)
  obtain n1 where n1: "map core (upsertSeat op coll) = map core coll @ n1"
    using upsertSeat_core by blast
  obtain n2 where "map core (fold upsertSeat ops (upsertSeat op coll)) =
      map core (upsertSeat op coll) @ n2"
    using Cons.IH by blast
  with n1 show ?case by simp
qed

lemma fold_upsertSeat_label_set:
  "label ` set (fold upsertSeat ops coll) = label ` set coll \<union> entry_label ` set ops"
proof (induction ops arbitrary: coll)
  case Nil
  then show ?case by simp
next
  case (Cons op ops)
  obtain r n where op: "op = (r, n)" by (cases op)
  have "set (map label (upsertSeat op coll)) = set (map label coll) \<union> {entry_label op}"
    unfolding op upsertSeat_labels by (auto simp: entry_label_def)
  then have "label ` set (upsertSeat op coll) = label ` set coll \<union> {entry_label op}"
    by simp
  then show ?case
    by (simp add: Cons.IH Un_assoc)
qed

lemma fold_upsertSeat_known_labels:
  "entry_label ` set ops \<subseteq> label ` set coll \<Longrightarrow>
   map label (fold upsertSeat ops coll) = map label coll"
proof (induction ops arbitrary: coll)
  case Nil
  then show ?case by simp
next
  case (Cons op ops)
  obtain r n where op: "op = (r, n)" by (cases op)
  have l: "map label (upsertSeat op coll) = map label coll"
    using Cons.prems unfolding op upsertSeat_labels by (simp add: entry_label_def)
  then have "set (map label (upsertSeat op coll)) = set (map label coll)"
    by simp
  then have "entry_label ` set ops \<subseteq> label ` set (upsertSeat op coll)"
    using Cons.prems by simp
  from Cons.IH [OF this] l show ?case by simp
qed

lemma good_upsertSeat:
  assumes "good D coll"
  shows "good (insert op D) (upsertSeat op coll)"
proof -
  obtain r n where op: "op = (r, n)" by (cases op)
  let ?l = "r @ show_nat n"
  let ?u = "\<lambda>s. s\<lparr>row := r, number := n, seat_type := rowToType r, label := ?l\<rparr>"
  have d: "distinct (map label coll)"
    using assms by (simp add: good_def)
  have d': "distinct (map label (upsertSeat op coll))"
    unfolding op upsertSeat_labels using d by simp
  have m: "\<exists>e \<in> insert op D. matches_entry s e"
    if s: "s \<in> set (upsertSeat op coll)" and l: "label s \<in> entry_label ` insert op D" for s
  proof (cases "label s = ?l")
    case True
    have "matches_entry s op"
    proof (cases "?l \<in> label ` set coll")
      case True
      with s have "s \<in> set (snd (findOneAndUpdate (\<lambda>s. label s = ?l) ?u coll))"
        by (simp add: op upsertSeat_cases)
      from findOneAndUpdate_elems [OF d this] \<open>label s = ?l\<close>
      obtain x where "s = ?u x" by blast
      then show ?thesis by (simp add: op matches_entry_def)
    next
      case False
      with s \<open>label s = ?l\<close> show ?thesis
        by (auto simp: op upsertSeat_cases matches_entry_def image_iff)
    qed
    then show ?thesis by blast
  next
    case False
    have old: "s \<in> set coll"
    proof (cases "?l \<in> label ` set coll")
      case True
      with s have "s \<in> set (snd (findOneAndUpdate (\<lambda>s. label s = ?l) ?u coll))"
        by (simp add: op upsertSeat_cases)
      from findOneAndUpdate_elems [OF d this] False show ?thesis by auto
    next
      case f: False
      with s False show ?thesis
        by (auto simp: op upsertSeat_cases)
    qed
    from l False have "label s \<in> entry_label ` D"
      by (auto simp: op entry_label_def)
    with assms old obtain e where "e \<in> D" "matches_entry s e"
      unfolding good_def by blast
    then show ?thesis by blast
  qed
  show ?thesis
    unfolding good_def using d' m by blast
qed

lemma good_fold:
  "good D coll \<Longrightarrow> good (D \<union> set ops) (fold upsertSeat ops coll)"
proof (induction ops arbitrary: D coll)
  case Nil
  then show ?case by simp
next
  case (Cons op ops)
  from good_upsertSeat [OF Cons.prems, of op]
  have "good (insert op D \<union> set ops) (fold upsertSeat ops (upsertSeat op coll))"
    by (rule Cons.IH)
  then show ?case by simp
qed

lemma good_start: "distinct (map label coll) \<Longrightarrow> good {} coll"
  by (simp add: good_def)

lemma init_bulk_set: "set (init_bulk R k) = set R \<times> {1..k}"
proof -
  have "set [1..<Suc k] = {1..k}"
    by (simp only: set_upt) auto
  then show ?thesis
    unfolding init_bulk_def by (auto simp del: upt_Suc)
qed

lemma digit_inj:
  "a < 10 \<Longrightarrow> b < 10 \<Longrightarrow> ''0123456789'' ! a = ''0123456789'' ! b \<Longrightarrow> a = b"
proof -
  have "distinct ''0123456789''" by simp
  moreover have "length ''0123456789'' = 10" by simp
  ultimately show "a < 10 \<Longrightarrow> b < 10 \<Longrightarrow> ''0123456789'' ! a = ''0123456789'' ! b \<Longrightarrow> a = b"
    by (metis nth_eq_iff_index_eq)
qed

lemma show_nat_nonempty: "show_nat n \<noteq> []"
  by (subst show_nat.simps) simp

lemma show_nat_inj: "show_nat n = show_nat m \<Longrightarrow> n = m"
proof (induction n arbitrary: m rule: show_nat.induct)
  case (1 n)
  show ?case
  proof (cases "n < 10")
    case n: True
    show ?thesis
    proof (cases "m < 10")
      case True
      with n "1.prems" show ?thesis
        by (simp add: show_nat.simps [of n] show_nat.simps [of m] digit_inj)
    next
      case False
      with n "1.prems" show ?thesis
        by (simp add: show_nat.simps [of n] show_nat.simps [of m]
            show_nat_nonempty [THEN not_sym])
    qed
  next
    case n: False
    show ?thesis
    proof (cases "m < 10")
      case True
      with n "1.prems" show ?thesis
        by (simp add: show_nat.simps [of n] show_nat.simps [of m] show_nat_nonempty)
    next
      case False
      with n "1.prems" have e: "show_nat (n div 10) = show_nat (m div 10)"
        and l: "''0123456789'' ! (n mod 10) = ''0123456789'' ! (m mod 10)"
        by (simp_all add: show_nat.simps [of n] show_nat.simps [of m])
      from "1.IH" [OF n e] have "n div 10 = m div 10" .
      moreover from l have "n mod 10 = m mod 10"
        by (rule digit_inj [rotated 2]) simp_all
      ultimately show ?thesis
        by (metis div_mult_mod_eq)
    qed
  qed
qed

lemma label_inj:
  "length r = length r' \<Longrightarrow> r @ show_nat m = r' @ show_nat m' \<Longrightarrow> r = r' \<and> m = m'"
  by (auto dest: show_nat_inj)

text \<open>
  C7. The labelling scheme of a request is its rows, upper-cased (the rows A to T when
  the body gives none) and the numbers from 1 to its seats per row (20 when the body
  gives no positive integer). Take a store whose seat labels are unique and run the
  inventory initialisation.
  \<^item> Running it again with the same body reports the same total, the number of seats.
  \<^item> After the run every seat that was there is at its place with the id, label, status
    and occupant link it had, and labels are still unique.
  \<^item> Every label of the scheme, a row followed by a number, has a seat.
  \<^item> Every seat with a label of the scheme has the row, the number and the type of an entry
    of the scheme that gives this label; when all rows of the scheme have the same length,
    a label comes from one entry only, and every seat labelled with row \<open>r\<close> and number
    \<open>m\<close> of the scheme has row \<open>r\<close>, number \<open>m\<close> and the type of row \<open>r\<close>.
\<close>

theorem init_idempotent:
  assumes "distinct (map label (seats d))"
    and "R = (case rows of
                None \<Rightarrow> map (\<lambda>c. [c]) ''ABCDEFGHIJKLMNOPQRST''
              | Some rs \<Rightarrow> if rs = [] then map (\<lambda>c. [c]) ''ABCDEFGHIJKLMNOPQRST''
                           else map toUpperCase rs)"
    and "k = (case p of None \<Rightarrow> 20 | Some q \<Rightarrow> if 0 < q then nat q else 20)"
  shows "fst (init rows p (snd (init rows p d))) = fst (init rows p d) \<and>
         fst (init rows p d) = SeatsInitialized (length (seats (snd (init rows p d)))) \<and>
         length (seats d) \<le> length (seats (snd (init rows p d))) \<and>
         (\<forall>j < length (seats d).
             seat_id (seats (snd (init rows p d)) ! j) = seat_id (seats d ! j) \<and>
             label (seats (snd (init rows p d)) ! j) = label (seats d ! j) \<and>
             seat_status (seats (snd (init rows p d)) ! j) = seat_status (seats d ! j) \<and>
             occupiedByBookingId (seats (snd (init rows p d)) ! j) =
               occupiedByBookingId (seats d ! j)) \<and>
         distinct (map label (seats (snd (init rows p d)))) \<and>
         (\<forall>r \<in> set R. \<forall>m \<in> {1..k}.
             \<exists>s \<in> set (seats (snd (init rows p d))). label s = r @ show_nat m) \<and>
         (\<forall>s \<in> set (seats (snd (init rows p d))).
             (\<exists>r \<in> set R. \<exists>m \<in> {1..k}. label s = r @ show_nat m) \<longrightarrow>
             (\<exists>r \<in> set R. \<exists>m \<in> {1..k}.
                 label s = r @ show_nat m \<and> row s = r \<and> number s = m \<and>
                 seat_type s = rowToType r)) \<and>
         ((\<forall>r \<in> set R. \<forall>r' \<in> set R. length r = length r') \<longrightarrow>
          (\<forall>s \<in> set (seats (snd (init rows p d))). \<forall>r \<in> set R. \<forall>m \<in> {1..k}.
              label s = r @ show_nat m \<longrightarrow>
              row s = r \<and> number s = m \<and> seat_type s = rowToType r))"
proof -
  define bulk where "bulk = init_bulk (request_rows rows) (request_perRow p)"
  define S where "S = fold upsertSeat bulk (seats d)"
  have R: "request_rows rows = R"
    by (simp add: assms(2) request_rows_def defaultRows_def split: option.splits)
  have k: "request_perRow p = k"
    by (simp add: assms(3) request_perRow_def split: option.splits)
  have sb: "set bulk = set R \<times> {1..k}"
    by (simp add: bulk_def R k init_bulk_set)
  have i1: "init rows p d = (SeatsInitialized (length S), d\<lparr>seats := S\<rparr>)"
    by (simp add: init_def Let_def S_def bulk_def)
  have ls: "label ` set S = label ` set (seats d) \<union> entry_label ` set bulk"
    unfolding S_def by (rule fold_upsertSeat_label_set)
  then have "entry_label ` set bulk \<subseteq> label ` set S"
    by simp
  then have "map label (fold upsertSeat bulk S) = map label S"
    by (rule fold_upsertSeat_known_labels)
  then have "length (fold upsertSeat bulk S) = length S"
    by (metis length_map)
  then have a: "fst (init rows p (d\<lparr>seats := S\<rparr>)) = SeatsInitialized (length S)"
    by (simp add: init_def Let_def bulk_def)
  obtain new where new: "map core S = map core (seats d) @ new"
    unfolding S_def using fold_upsertSeat_core by blast
  then have len: "length (seats d) \<le> length S"
    by (metis length_map length_append le_add1)
  have c: "core (S ! j) = core (seats d ! j)" if "j < length (seats d)" for j
  proof -
    have "core (S ! j) = map core S ! j"
      using that len by simp
    also have "\<dots> = map core (seats d) ! j"
      using that by (simp add: new nth_append)
    also have "\<dots> = core (seats d ! j)"
      using that by simp
    finally show ?thesis .
  qed
  have g: "good (set bulk) S"
    using good_fold [OF good_start [OF assms(1)], of bulk] by (simp add: S_def)
  then have dl: "distinct (map label S)"
    by (simp add: good_def)
  have e: "\<exists>s \<in> set S. label s = r @ show_nat m" if "r \<in> set R" "m \<in> {1..k}" for r m
  proof -
    have "entry_label (r, m) \<in> entry_label ` set bulk"
      using that by (simp add: sb)
    with ls have "entry_label (r, m) \<in> label ` set S"
      by blast
    then show ?thesis
      by (auto simp: entry_label_def)
  qed
  have m: "\<exists>r \<in> set R. \<exists>m \<in> {1..k}.
      label s = r @ show_nat m \<and> row s = r \<and> number s = m \<and> seat_type s = rowToType r"
    if "s \<in> set S" "r0 \<in> set R" "m0 \<in> {1..k}" "label s = r0 @ show_nat m0" for s r0 m0
  proof -
    have "label s \<in> entry_label ` set bulk"
      using that(2-4) by (force simp: sb entry_label_def)
    with g that(1) obtain op where op: "op \<in> set bulk" "matches_entry s op"
      unfolding good_def by blast
    from op(1) have "op \<in> set R \<times> {1..k}"
      by (simp only: sb)
    with op(2) show ?thesis
      by (cases op) (auto simp: matches_entry_def)
  qed
  have u: "row s = r \<and> number s = m0 \<and> seat_type s = rowToType r"
    if "\<forall>r \<in> set R. \<forall>r' \<in> set R. length r = length r'"
      "s \<in> set S" "r \<in> set R" "m0 \<in> {1..k}" "label s = r @ show_nat m0" for s r m0
  proof -
    from m [OF that(2-5)] obtain r' m' where r': "r' \<in> set R" "m' \<in> {1..k}"
      "label s = r' @ show_nat m'" "row s = r'" "number s = m'" "seat_type s = rowToType r'"
      by blast
    from that(1,3) r'(1) have "length r = length r'" by blast
    with that(5) r'(3) have "r = r' \<and> m0 = m'"
      by (metis label_inj)
    with r' show ?thesis by simp
  qed
  have sd: "seats (snd (init rows p d)) = S"
    by (simp add: i1)
  have h1: "fst (init rows p (snd (init rows p d))) = fst (init rows p d)"
    using a by (simp add: i1)
  have h2: "fst (init rows p d) = SeatsInitialized (length S)"
    by (simp add: i1)
  have h4: "\<forall>j < length (seats d).
      seat_id (S ! j) = seat_id (seats d ! j) \<and> label (S ! j) = label (seats d ! j) \<and>
      seat_status (S ! j) = seat_status (seats d ! j) \<and>
      occupiedByBookingId (S ! j) = occupiedByBookingId (seats d ! j)"
  proof (intro allI impI)
    fix j
    assume "j < length (seats d)"
    from c [OF this] show "seat_id (S ! j) = seat_id (seats d ! j) \<and>
        label (S ! j) = label (seats d ! j) \<and>
        seat_status (S ! j) = seat_status (seats d ! j) \<and>
        occupiedByBookingId (S ! j) = occupiedByBookingId (seats d ! j)"
      by (simp add: core_def)
  qed
  have h6: "\<forall>r \<in> set R. \<forall>m \<in> {1..k}. \<exists>s \<in> set S. label s = r @ show_nat m"
    by (intro ballI) (rule e)
  have h7: "\<forall>s \<in> set S.
      (\<exists>r \<in> set R. \<exists>m \<in> {1..k}. label s = r @ show_nat m) \<longrightarrow>
      (\<exists>r \<in> set R. \<exists>m \<in> {1..k}.
          label s = r @ show_nat m \<and> row s = r \<and> number s = m \<and>
          seat_type s = rowToType r)"
  proof (intro ballI impI)
    fix s
    assume s: "s \<in> set S" and "\<exists>r \<in> set R. \<exists>m \<in> {1..k}. label s = r @ show_nat m"
    then obtain r0 m0 where "r0 \<in> set R" "m0 \<in> {1..k}" "label s = r0 @ show_nat m0"
      by blast
    with s show "\<exists>r \<in> set R. \<exists>m \<in> {1..k}.
        label s = r @ show_nat m \<and> row s = r \<and> number s = m \<and> seat_type s = rowToType r"
      by (rule m)
  qed
  have h8: "(\<forall>r \<in> set R. \<forall>r' \<in> set R. length r = length r') \<longrightarrow>
      (\<forall>s \<in> set S. \<forall>r \<in> set R. \<forall>m \<in> {1..k}.
          label s = r @ show_nat m \<longrightarrow>
          row s = r \<and> number s = m \<and> seat_type s = rowToType r)"
    by (intro impI ballI) (rule u)
  show ?thesis
    unfolding sd
    by (rule conjI [OF h1 conjI [OF h2 conjI [OF len conjI [OF h4 conjI [OF dl
          conjI [OF h6 conjI [OF h7 h8]]]]]]])
qed

text \<open>
  The old hall has seats A1 to A3, A3 occupied by booking 10, and seat A2 carries the
  stale row "a", number 7 and type premium. Row "a" with four seats per row: the total is
  the same both times, A2 gets row A, number 2 and type primary, A3 stays occupied by
  booking 10, and a seat A4, which was not there, exists.
\<close>

theorem init_idempotent_witness:
  "distinct (map label (seats old_hall)) \<and>
   label (seats old_hall ! 1) = ''A2'' \<and>
   row (seats old_hall ! 1) = ''a'' \<and>
   number (seats old_hall ! 1) = 7 \<and>
   seat_type (seats old_hall ! 1) = Premium \<and>
   ''A4'' \<notin> label ` set (seats old_hall) \<and>
   fst (init (Some [''a'']) (Some 4) (snd (init (Some [''a'']) (Some 4) old_hall))) =
     fst (init (Some [''a'']) (Some 4) old_hall) \<and>
   label (seats (snd (init (Some [''a'']) (Some 4) old_hall)) ! 1) = ''A2'' \<and>
   row (seats (snd (init (Some [''a'']) (Some 4) old_hall)) ! 1) = ''A'' \<and>
   number (seats (snd (init (Some [''a'']) (Some 4) old_hall)) ! 1) = 2 \<and>
   seat_type (seats (snd (init (Some [''a'']) (Some 4) old_hall)) ! 1) = Primary \<and>
   seat_status (seats (snd (init (Some [''a'']) (Some 4) old_hall)) ! 2) = Occupied \<and>
   occupiedByBookingId (seats (snd (init (Some [''a'']) (Some 4) old_hall)) ! 2) = Some 10 \<and>
   (\<exists>s \<in> set (seats (snd (init (Some [''a'']) (Some 4) old_hall))). label s = ''A4'')"
proof -
  let ?d1 = "snd (init (Some [''a'']) (Some 4) old_hall)"
  have h: "distinct (map label (seats old_hall))"
    by code_simp
  have R: "[''A''] = (case Some [''a''] of
                None \<Rightarrow> map (\<lambda>c. [c]) ''ABCDEFGHIJKLMNOPQRST''
              | Some rs \<Rightarrow> if rs = [] then map (\<lambda>c. [c]) ''ABCDEFGHIJKLMNOPQRST''
                           else map toUpperCase rs)"
    by code_simp
  have k: "(4::nat) = (case Some (4::int) of None \<Rightarrow> 20 | Some q \<Rightarrow> if 0 < q then nat q else 20)"
    by simp
  have old: "label (seats old_hall ! 1) = ''A2'' \<and> row (seats old_hall ! 1) = ''a'' \<and>
      number (seats old_hall ! 1) = 7 \<and> seat_type (seats old_hall ! 1) = Premium \<and>
      ''A4'' \<notin> label ` set (seats old_hall) \<and>
      seat_status (seats old_hall ! 2) = Occupied \<and>
      occupiedByBookingId (seats old_hall ! 2) = Some 10 \<and>
      length (seats old_hall) = 3"
    by code_simp
  have sh: "''A'' @ show_nat 2 = ''A2''" "''A'' @ show_nat 4 = ''A4''"
    "rowToType ''A'' = Primary"
    by code_simp+
  note t = init_idempotent [OF h R k]
  have same: "fst (init (Some [''a'']) (Some 4) ?d1) = fst (init (Some [''a'']) (Some 4) old_hall)"
    using t by blast
  have len: "length (seats old_hall) \<le> length (seats ?d1)"
    using t by blast
  have kept: "\<forall>j < length (seats old_hall).
      seat_id (seats ?d1 ! j) = seat_id (seats old_hall ! j) \<and>
      label (seats ?d1 ! j) = label (seats old_hall ! j) \<and>
      seat_status (seats ?d1 ! j) = seat_status (seats old_hall ! j) \<and>
      occupiedByBookingId (seats ?d1 ! j) = occupiedByBookingId (seats old_hall ! j)"
    using t by blast
  have ex: "\<forall>r \<in> set [''A'']. \<forall>m \<in> {1..4}. \<exists>s \<in> set (seats ?d1). label s = r @ show_nat m"
    using t by blast
  have ow: "(\<forall>r \<in> set [''A'']. \<forall>r' \<in> set [''A'']. length r = length r') \<longrightarrow>
      (\<forall>s \<in> set (seats ?d1). \<forall>r \<in> set [''A'']. \<forall>m \<in> {1..4}.
          label s = r @ show_nat m \<longrightarrow>
          row s = r \<and> number s = m \<and> seat_type s = rowToType r)"
    using t by blast
  from kept old have l1: "label (seats ?d1 ! 1) = ''A2''"
    and s2: "seat_status (seats ?d1 ! 2) = Occupied"
    and o2: "occupiedByBookingId (seats ?d1 ! 2) = Some 10"
    by simp_all
  from len old have mem: "seats ?d1 ! 1 \<in> set (seats ?d1)"
    by simp
  have eqlen: "\<forall>r \<in> set [''A'']. \<forall>r' \<in> set [''A'']. length r = length r'"
    by simp
  have A: "''A'' \<in> set [''A'']"
    by simp
  have two: "(2::nat) \<in> {1..4}" and four: "(4::nat) \<in> {1..4}"
    by simp_all
  from l1 sh have lab: "label (seats ?d1 ! 1) = ''A'' @ show_nat 2"
    by simp
  from ow [THEN mp, OF eqlen, rule_format, OF mem A two lab] sh
  have a2: "row (seats ?d1 ! 1) = ''A'' \<and> number (seats ?d1 ! 1) = 2 \<and>
      seat_type (seats ?d1 ! 1) = Primary"
    by simp
  from ex [rule_format, OF A four] sh have a4: "\<exists>s \<in> set (seats ?d1). label s = ''A4''"
    by simp
  from h old same l1 a2 s2 o2 a4 show ?thesis
    by simp
qed

subsection \<open>Intake\<close>

lemma email_rx_Nil: "\<not> matches email_rx []"
  by code_simp

lemma phone_rx_Nil: "\<not> matches phone_rx []"
  by code_simp

lemma trim_Nil [simp]: "trim [] = []"
  by (simp add: trim_def)

lemma toLowerCase_Nil [simp]: "toLowerCase [] = []"
  by (simp add: toLowerCase_def)

lemma fresh_id_greater: "i \<in> set ids \<Longrightarrow> i < fresh_id ids"
proof -
  have "\<And>m. i \<in> set ids \<Longrightarrow> i \<le> fold max ids m"
  proof (induction ids)
    case Nil
    then show ?case by simp
  next
    case (Cons a ids)
    have mono: "\<And>m. m \<le> fold max ids m"
      by (induction ids) (auto intro: order_trans [OF max.cobounded2])
    from Cons show ?case
      by (auto intro: order_trans [OF _ mono])
  qed
  then show "i \<in> set ids \<Longrightarrow> i < fresh_id ids"
    by (simp add: fresh_id_def less_Suc_eq_le)
qed

lemma fresh_id_new: "fresh_id ids \<notin> set ids"
  using fresh_id_greater by blast

lemma submit_rejects:
  assumes "\<not> well_formed_intake rq"
  shows "\<not> is_success (fst (submit f rq d)) \<and>
      bookings (snd (submit f rq d)) = bookings d \<and>
      seats (snd (submit f rq d)) = seats d"
  using assms email_rx_Nil phone_rx_Nil
  unfolding submit_def well_formed_intake_def upload_single_def Let_def
  by (auto simp: is_success_def validate_booking_def split: option.splits if_splits)

lemma submit_reject_reply:
  assumes "\<not> well_formed_intake rq"
  shows "fst (submit None rq d) \<in>
        {Unhandled ''Only image files allowed (png, jpg, jpeg, webp, gif).'',
         Unhandled ''File too large'',
         Error 400 ''email, phone, amount, seats, and screenshot are required'',
         Error 500 ''Failed to save booking after upload''}"
  using assms email_rx_Nil phone_rx_Nil
  unfolding submit_def well_formed_intake_def upload_single_def Let_def
  by (auto simp: validate_booking_def split: option.splits if_splits)

lemma submit_accepts:
  assumes "well_formed_intake rq"
  shows "\<exists>doc. fst (submit None rq d) = BookingSubmitted (booking_id doc) \<and>
             bookings (snd (submit None rq d)) = bookings d @ [doc] \<and>
             seats (snd (submit None rq d)) = seats d \<and>
             booking_id doc \<notin> booking_id ` set (bookings d) \<and>
             status doc = Pending \<and>
             seatIds doc = [] \<and>
             Some (seatLabels doc) = map_option parse_seats (req_seats rq)"
proof -
  from assms obtain em ph am sr fl where rq:
      "req_email rq = Some em" "req_phone rq = Some ph" "req_amount rq = Some am"
      "req_seats rq = Some sr" "req_file rq = Some fl"
    and ok: "matches email_rx (toLowerCase (trim em))" "matches phone_rx (trim ph)"
      "1 \<le> am" "sr \<noteq> []" "fileFilter fl" "file_size fl \<le> fileSize_limit"
    unfolding well_formed_intake_def by (auto split: option.splits)
  have ne: "em \<noteq> []" "ph \<noteq> []" "toLowerCase (trim em) \<noteq> []" "trim ph \<noteq> []" "am \<noteq> 0"
    using ok email_rx_Nil phone_rx_Nil by auto
  have f: "fresh_id (map booking_id (bookings d)) \<notin> booking_id ` set (bookings d)"
    using fresh_id_new [of "map booking_id (bookings d)"] by simp
  show ?thesis
    using rq ok ne f
    by (simp add: submit_def upload_single_def Let_def validate_booking_def)
qed

text \<open>
  C9, amended. Whenever the intake request is not well formed (a contact field missing, or
  not matching its pattern after the schema's normalisation; the amount not a number or
  below 1; the seats field missing or empty; the attachment missing, not of an image type
  or above the size limit), the handler does not reply with success and creates no
  booking, whatever the store does; with a store that works the reply is the upload
  middleware's error, the 400 "required" error or the 500 "Failed to save booking after
  upload". Whenever the request is well formed and its seats field lists at least one
  label, and the store works, the handler replies with the id of a new booking, appended
  to the bookings with status pending, no seat references and the parsed labels; the
  seats are not consulted and not changed.
\<close>

theorem submit_validation:
  "(\<not> well_formed_intake rq \<longrightarrow>
      \<not> is_success (fst (submit f rq d)) \<and>
      bookings (snd (submit f rq d)) = bookings d \<and>
      seats (snd (submit f rq d)) = seats d \<and>
      fst (submit None rq d) \<in>
        {Unhandled ''Only image files allowed (png, jpg, jpeg, webp, gif).'',
         Unhandled ''File too large'',
         Error 400 ''email, phone, amount, seats, and screenshot are required'',
         Error 500 ''Failed to save booking after upload''}) \<and>
   (well_formed_intake rq \<and> map_option parse_seats (req_seats rq) \<noteq> Some [] \<longrightarrow>
      (\<exists>doc. fst (submit None rq d) = BookingSubmitted (booking_id doc) \<and>
             bookings (snd (submit None rq d)) = bookings d @ [doc] \<and>
             seats (snd (submit None rq d)) = seats d \<and>
             booking_id doc \<notin> booking_id ` set (bookings d) \<and>
             status doc = Pending \<and>
             seatIds doc = [] \<and>
             Some (seatLabels doc) = map_option parse_seats (req_seats rq)))"
  using submit_rejects [of rq f d] submit_reject_reply [of rq d] submit_accepts [of rq d]
  by blast

lemma walk_in_email: "matches email_rx (toLowerCase (trim ''Ann@Mail.in''))"
  by code_simp

lemma walk_in_phone: "matches phone_rx (trim ''9876543210'')"
  by code_simp

lemma walk_in_file:
  "fileFilter \<lparr>originalname = ''pay.png'', mimetype = ''image/png'', file_size = 1000\<rparr>"
  by code_simp

lemma walk_in_well_formed: "well_formed_intake walk_in"
  by (simp add: well_formed_intake_def walk_in_def walk_in_email walk_in_phone walk_in_file
      fileSize_limit_def)

text \<open>
  C9, as the spec states it, promises a pending booking for every request with well-formed
  contact, a positive amount, a seat list and a valid attachment. The walk-in request is
  well formed; with the positive amount 1/2 in place of 500 it gets the reply 500 and no
  booking: the schema asks for an amount of at least 1.
\<close>

theorem submit_small_amount_counterexample:
  "well_formed_intake walk_in \<and>
   (0::rat) < 1 / 2 \<and>
   fst (submit None (walk_in\<lparr>req_amount := Some (1 / 2)\<rparr>) hall) =
     Error 500 ''Failed to save booking after upload'' \<and>
   bookings (snd (submit None (walk_in\<lparr>req_amount := Some (1 / 2)\<rparr>) hall)) = bookings hall"
  using walk_in_well_formed
  by (simp add: submit_def upload_single_def Let_def validate_booking_def walk_in_def
      walk_in_email walk_in_phone walk_in_file fileSize_limit_def)

text \<open>
  The walk-in request adds a pending booking for B7 and B8 to the hall, which has no such
  seats; with an email without "@" it adds nothing.
\<close>

theorem submit_validation_witness:
  "well_formed_intake walk_in \<and>
   \<not> well_formed_intake (walk_in\<lparr>req_email := Some ''ann.mail.in''\<rparr>) \<and>
   (\<exists>doc. bookings (snd (submit None walk_in hall)) = bookings hall @ [doc] \<and>
          status doc = Pending \<and> seatLabels doc = [''B7'', ''B8'']) \<and>
   bookings (snd (submit None (walk_in\<lparr>req_email := Some ''ann.mail.in''\<rparr>) hall)) =
     bookings hall"
proof -
  have p: "parse_seats ''b7, b8'' = [''B7'', ''B8'']"
    by code_simp
  have e: "\<not> matches email_rx (toLowerCase (trim ''ann.mail.in''))"
    by code_simp
  have n: "\<not> well_formed_intake (walk_in\<lparr>req_email := Some ''ann.mail.in''\<rparr>)"
    by (simp add: well_formed_intake_def walk_in_def e)
  have q: "map_option parse_seats (req_seats walk_in) \<noteq> Some []"
    by (simp add: walk_in_def p)
  from submit_validation [of walk_in None hall] walk_in_well_formed p q
  have 1: "\<exists>doc. bookings (snd (submit None walk_in hall)) = bookings hall @ [doc] \<and>
          status doc = Pending \<and> seatLabels doc = [''B7'', ''B8'']"
    by (auto simp: walk_in_def)
  from submit_validation [of "walk_in\<lparr>req_email := Some ''ann.mail.in''\<rparr>" None hall] n
  have 2: "bookings (snd (submit None (walk_in\<lparr>req_email := Some ''ann.mail.in''\<rparr>) hall)) =
     bookings hall"
    by blast
  from walk_in_well_formed n 1 2 show ?thesis by blast
qed

subsection \<open>The uniqueness guarantees of the store are kept\<close>

lemma update_keeps_seat_id:
  "map seat_id (snd (findOneAndUpdate (\<lambda>s. label s = l)
      (\<lambda>s. s\<lparr>row := r, number := n, seat_type := t, label := l\<rparr>) coll)) = map seat_id coll"
  by (rule findOneAndUpdate_map) simp

lemma upsertSeat_seat_ids:
  "distinct (map seat_id coll) \<Longrightarrow> distinct (map seat_id (upsertSeat op coll))"
  using fresh_id_new [of "map seat_id coll"]
  by (cases op) (simp add: upsertSeat_cases update_keeps_seat_id)

lemma upsertSeat_distinct_labels:
  "distinct (map label coll) \<Longrightarrow> distinct (map label (upsertSeat op coll))"
  by (cases op) (simp add: upsertSeat_labels)

lemma fold_upsertSeat_wf:
  "distinct (map seat_id coll) \<and> distinct (map label coll) \<Longrightarrow>
   distinct (map seat_id (fold upsertSeat ops coll)) \<and>
   distinct (map label (fold upsertSeat ops coll))"
  by (induction ops arbitrary: coll)
     (simp_all add: upsertSeat_seat_ids upsertSeat_distinct_labels)

lemma map_booking_id_update [simp]:
  "map booking_id (booking_update b bs) = map booking_id bs"
  by (simp add: booking_update_def o_def)

lemma wf_db_init: "wf_db d \<Longrightarrow> wf_db (snd (init rows p d))"
  using fold_upsertSeat_wf [of "seats d"]
  by (simp add: wf_db_def init_def Let_def)

lemma wf_db_occupy: "wf_db d \<Longrightarrow> wf_db (snd (occupy l d))"
proof -
  have "map seat_id (snd (findOneAndUpdate (\<lambda>s. label s = toUpperCase l)
          (\<lambda>s. s\<lparr>seat_status := Occupied\<rparr>) (seats d))) = map seat_id (seats d)"
    by (rule findOneAndUpdate_map) simp
  moreover have "map label (snd (findOneAndUpdate (\<lambda>s. label s = toUpperCase l)
          (\<lambda>s. s\<lparr>seat_status := Occupied\<rparr>) (seats d))) = map label (seats d)"
    by (rule findOneAndUpdate_map) simp
  ultimately show "wf_db d \<Longrightarrow> wf_db (snd (occupy l d))"
    by (auto simp: wf_db_def occupy_def Let_def split: prod.splits option.splits)
qed

lemma wf_db_release: "wf_db d \<Longrightarrow> wf_db (snd (release l d))"
proof -
  have "map seat_id (snd (findOneAndUpdate (\<lambda>s. label s = toUpperCase l)
          (\<lambda>s. s\<lparr>seat_status := Available, occupiedByBookingId := None\<rparr>) (seats d))) =
        map seat_id (seats d)"
    by (rule findOneAndUpdate_map) simp
  moreover have "map label (snd (findOneAndUpdate (\<lambda>s. label s = toUpperCase l)
          (\<lambda>s. s\<lparr>seat_status := Available, occupiedByBookingId := None\<rparr>) (seats d))) =
        map label (seats d)"
    by (rule findOneAndUpdate_map) simp
  ultimately show "wf_db d \<Longrightarrow> wf_db (snd (release l d))"
    by (auto simp: wf_db_def release_def Let_def split: prod.splits option.splits)
qed

lemma wf_db_submit: "wf_db d \<Longrightarrow> wf_db (snd (submit f rq d))"
  using fresh_id_new [of "map booking_id (bookings d)"]
  unfolding submit_def Let_def wf_db_def
  by (auto split: sum.splits option.splits)

lemma marked_seat_ids:
  "map (seat_id \<circ> (\<lambda>t. if C t then t\<lparr>seat_status := a, occupiedByBookingId := b\<rparr> else t)) xs =
   map seat_id xs"
  by (induction xs) auto

lemma marked_labels:
  "map (label \<circ> (\<lambda>t. if C t then t\<lparr>seat_status := a, occupiedByBookingId := b\<rparr> else t)) xs =
   map label xs"
  by (induction xs) auto

lemma wf_db_approve: "wf_db d \<Longrightarrow> wf_db (snd (approve f i n d))"
proof (cases "is_success (fst (approve f i n d))")
  case False
  then show "wf_db d \<Longrightarrow> wf_db (snd (approve f i n d))"
    by (simp add: approve_failure_keeps_db)
next
  case True
  then have eq: "approve f i n d = approve None i n d"
    by (rule success_means_no_fault)
  show "wf_db d \<Longrightarrow> wf_db (snd (approve f i n d))"
    unfolding eq
    by (simp add: approve_None wf_db_def marked_seat_ids marked_labels split: option.splits)
qed

lemma wf_db_reject: "wf_db d \<Longrightarrow> wf_db (snd (reject f i n d))"
  using reject_fault [of f i n d]
  by (auto simp: reject_None wf_db_def split: option.splits if_splits)

text \<open>
  Every handler keeps the ids of seats and bookings and the labels of seats unique, so a
  store that starts well formed stays so over any run.
\<close>

lemma wf_db_handle: "wf_db d \<Longrightarrow> wf_db (snd (handle r d))"
  by (cases r)
     (simp_all add: wf_db_init wf_db_occupy wf_db_release wf_db_submit wf_db_approve
        wf_db_reject)

lemma wf_db_run: "wf_db d \<Longrightarrow> wf_db (run rs d)"
  by (induction rs arbitrary: d) (simp_all add: wf_db_handle)

text \<open>
  Every booking that the intake handler stores passes the validators of the booking
  schema, and approve and reject leave the validated fields alone: a store whose bookings
  are valid keeps them valid over any run.
\<close>

lemma list_all_booking_update:
  "list_all validate_booking bs \<Longrightarrow> validate_booking b \<Longrightarrow>
   list_all validate_booking (booking_update b bs)"
  by (auto simp: list_all_iff booking_update_def)

lemma bookings_valid_handle:
  assumes "list_all validate_booking (bookings d)"
  shows "list_all validate_booking (bookings (snd (handle r d)))"
proof (cases r)
  case (Submit f rq)
  show ?thesis
    using assms unfolding Submit handle.simps submit_def Let_def
    by (auto split: sum.splits option.splits)
next
  case (ApproveBooking f i n)
  show ?thesis
  proof (cases "is_success (fst (approve f i n d))")
    case False
    then show ?thesis
      using assms ApproveBooking by (simp add: approve_failure_keeps_db)
  next
    case True
    then have eq: "approve f i n d = approve None i n d"
      by (rule success_means_no_fault)
    show ?thesis
      using assms unfolding ApproveBooking handle.simps eq
      by (auto simp: approve_None list_all_booking_update split: option.splits)
  qed
next
  case (RejectBooking f i n)
  show ?thesis
    using assms reject_fault [of f i n d] unfolding RejectBooking handle.simps
    by (auto simp: reject_None list_all_booking_update split: option.splits if_splits)
qed (use assms in simp_all)

lemma bookings_valid_run:
  "list_all validate_booking (bookings d) \<Longrightarrow>
   list_all validate_booking (bookings (run rs d))"
  by (induction rs arbitrary: d) (simp_all add: bookings_valid_handle)

end
